theory Spec2Isabelle
  imports Complex_Main
begin

section \<open>Geocoin Carrier: the ledger, the registry and the world state\<close>

text \<open>
  The repository holds several iterations of one browser game (\<^verbatim>\<open>src/main.ts\<close> and
  its later versions). The JavaScript numbers that are cell indices are integers and are
  modelled as \<^typ>\<open>int\<close>; latitudes, longitudes and the values of \<^verbatim>\<open>luck\<close> are
  doubles and are idealised as \<^typ>\<open>real\<close> (rounding is not modelled). Objects that
  the code shares by reference (the Geocoin objects and the Geocoin[] arrays) live in an
  explicit store: a reference is an index into a list of objects, allocation appends.
  The function \<^verbatim>\<open>luck\<close> is imported from \<^verbatim>\<open>luck.ts\<close>, which is not among the sources;
  it is a parameter \<open>luck\<close> of every function that calls it, from the seed string to a
  number (in \<open>[0, 1)\<close> by its contract). The map, its marker, rectangles and popups belong
  to Leaflet; of a rectangle the model keeps the cell it was made for.
\<close>

subsection \<open>Constants\<close>

definition OAKES_CLASSROOM :: "real \<times> real" where
  "OAKES_CLASSROOM = (36.98949379578401, -122.06277128548504)"

definition TILE_DEGREES :: real where
  "TILE_DEGREES = 0.0001"

definition NEIGHBORHOOD_SIZE :: int where
  "NEIGHBORHOOD_SIZE = 8"

definition CACHE_SPAWN_PROBABILITY :: real where
  "CACHE_SPAWN_PROBABILITY = 0.1"

subsection \<open>Numbers in template literals and in \<^verbatim>\<open>Array.prototype.toString\<close>\<close>

definition digit :: "nat \<Rightarrow> char" where
  "digit n = ''0123456789'' ! n"

fun show_nat :: "nat \<Rightarrow> string" where
  "show_nat n = (if n < 10 then [digit n] else show_nat (n div 10) @ [digit (n mod 10)])"

declare show_nat.simps [simp del]

text \<open>The decimal rendering of an integer-valued number.\<close>

definition show_int :: "int \<Rightarrow> string" where
  "show_int k = (if k < 0 then ''-'' @ show_nat (nat (- k)) else show_nat (nat k))"

subsection \<open>Cells and geocoins\<close>

datatype cell = Cell (cell_i: int) (cell_j: int)

definition createCell :: "int \<Rightarrow> int \<Rightarrow> cell" where
  "createCell ci cj = Cell ci cj"

definition toLatLng :: "cell \<Rightarrow> real \<times> real" where
  "toLatLng c = (fst OAKES_CLASSROOM + real_of_int (cell_i c) * TILE_DEGREES,
                 snd OAKES_CLASSROOM + real_of_int (cell_j c) * TILE_DEGREES)"

text \<open>\<^verbatim>\<open>toString: () => `${i}:${j}`\<close>\<close>

definition toString :: "cell \<Rightarrow> string" where
  "toString c = show_int (cell_i c) @ '':'' @ show_int (cell_j c)"

record geocoin =
  latitude :: real
  longitude :: real
  serial :: nat
  collected :: bool

text \<open>
  A value that \<^verbatim>\<open>playerPosition\<close> can hold: a \<^verbatim>\<open>leaflet.LatLng\<close>, or a member
  of \<^verbatim>\<open>Object.prototype\<close> (named by its property name) that a property lookup on an
  object literal returns for an inherited name.
\<close>

datatype position = LatLng real real | Inherited string

subsection \<open>The module state\<close>

record game =
  objs :: "geocoin list"                \<comment> \<open>the Geocoin objects; a reference is an index\<close>
  arrays :: "nat list list"             \<comment> \<open>the Geocoin[] arrays; a reference is an index\<close>
  coins :: "string \<rightharpoonup> nat"              \<comment> \<open>\<^verbatim>\<open>geocoinFactory.coins\<close>: cell key to array\<close>
  playerCoins :: "nat list"
  playerPoints :: int
  spawnedCaches :: "string set"
  rects :: "(int \<times> int) list"           \<comment> \<open>rectangles that \<^verbatim>\<open>spawnCache\<close> put on the map\<close>
  events :: "string list"               \<comment> \<open>events dispatched on \<^verbatim>\<open>eventDispatcher\<close>\<close>
  alerts :: "string list"               \<comment> \<open>messages shown with \<^verbatim>\<open>alert\<close>\<close>
  playerPosition :: position
  playerMovementHistory :: "position list"
  cacheStateMemento :: "string \<rightharpoonup> string \<times> nat"  \<comment> \<open>cell key to (cellKey, coins array)\<close>

definition init_game :: game where
  "init_game = \<lparr> objs = [], arrays = [], coins = Map.empty, playerCoins = [],
     playerPoints = 0, spawnedCaches = {}, rects = [], events = [], alerts = [],
     playerPosition = LatLng (fst OAKES_CLASSROOM) (snd OAKES_CLASSROOM),
     playerMovementHistory = [], cacheStateMemento = Map.empty \<rparr>"

definition dispatchEvent :: "string \<Rightarrow> game \<Rightarrow> game" where
  "dispatchEvent e s = s\<lparr>events := events s @ [e]\<rparr>"

subsection \<open>The geocoin factory (\<^verbatim>\<open>src/main.ts\<close>)\<close>

text \<open>
  \<^verbatim>\<open>if (!this.coins[cellKey]) this.coins[cellKey] = []; this.coins[cellKey].push(coin)\<close>,
  the common tail of \<^verbatim>\<open>create\<close> and \<^verbatim>\<open>addCoinToCache\<close>.
\<close>

definition pushCoin :: "string \<Rightarrow> nat \<Rightarrow> game \<Rightarrow> game" where
  "pushCoin cellKey a s =
     (case coins s cellKey of
        None \<Rightarrow> s\<lparr>arrays := arrays s @ [[a]], coins := (coins s)(cellKey \<mapsto> length (arrays s))\<rparr>
      | Some r \<Rightarrow> s\<lparr>arrays := (arrays s)[r := arrays s ! r @ [a]]\<rparr>)"

text \<open>\<^verbatim>\<open>getCoins\<close>: the elements of the cell's array, or of a fresh empty array.\<close>

definition getCoins :: "cell \<Rightarrow> game \<Rightarrow> nat list" where
  "getCoins c s = (case coins s (toString c) of None \<Rightarrow> [] | Some r \<Rightarrow> arrays s ! r)"

text \<open>
  \<^verbatim>\<open>create\<close>: the serial is \<^verbatim>\<open>this.coins[cellKey]?.length ?? 0\<close>, the present length
  of the cell's array. The result is the reference of the new coin and the new state.
\<close>

definition newCoin :: "cell \<Rightarrow> nat \<Rightarrow> geocoin" where
  "newCoin c n = \<lparr> latitude = fst (toLatLng c), longitude = snd (toLatLng c),
                   serial = n, collected = False \<rparr>"

definition create :: "cell \<Rightarrow> game \<Rightarrow> nat \<times> game" where
  "create c s =
     (let cellKey = toString c;
          n = (case coins s cellKey of None \<Rightarrow> 0 | Some r \<Rightarrow> length (arrays s ! r));
          a = length (objs s)
      in (a, pushCoin cellKey a (s\<lparr>objs := objs s @ [newCoin c n]\<rparr>)))"

text \<open>The \<^verbatim>\<open>collect\<close> method of the coin at reference \<open>a\<close>.\<close>

definition collect :: "nat \<Rightarrow> game \<Rightarrow> game" where
  "collect a s =
     (if \<not> collected (objs s ! a)
      then dispatchEvent ''game-state-changed''
             (s\<lparr>objs := (objs s)[a := (objs s ! a)\<lparr>collected := True\<rparr>],
                playerCoins := playerCoins s @ [a],
                playerPoints := playerPoints s + 1\<rparr>)
      else s)"

datatype js_error = TypeError

text \<open>
  \<^verbatim>\<open>removeCoin\<close>: when the cell has no array, \<^verbatim>\<open>coinIndex\<close> is \<^verbatim>\<open>undefined\<close>, which
  differs from \<^verbatim>\<open>-1\<close>, and \<^verbatim>\<open>this.coins[cellKey].splice\<close> throws. Otherwise the first
  occurrence of the coin is spliced out, if there is one.
\<close>

definition removeCoin :: "cell \<Rightarrow> nat \<Rightarrow> game \<Rightarrow> js_error + game" where
  "removeCoin c a s =
     (case coins s (toString c) of
        None \<Rightarrow> Inl TypeError
      | Some r \<Rightarrow>
          Inr (if a \<in> set (arrays s ! r)
               then s\<lparr>arrays := (arrays s)[r := remove1 a (arrays s ! r)]\<rparr>
               else s))"

definition addCoinToCache :: "cell \<Rightarrow> nat \<Rightarrow> game \<Rightarrow> game" where
  "addCoinToCache c a s = pushCoin (toString c) a s"

subsection \<open>Spawning caches and opening popups (\<^verbatim>\<open>src/main.ts\<close>)\<close>

definition spawnCache :: "int \<Rightarrow> int \<Rightarrow> game \<Rightarrow> game" where
  "spawnCache ci cj s = s\<lparr>rects := rects s @ [(ci, cj)]\<rparr>"

primrec create_times :: "nat \<Rightarrow> cell \<Rightarrow> game \<Rightarrow> game" where
  "create_times 0 c s = s"
| "create_times (Suc n) c s = create_times n c (snd (create c s))"

text \<open>\<^verbatim>\<open>Math.floor(luck([cell.i, cell.j, "coinCount"].toString()) * 10) + 1\<close>\<close>

definition coinCount :: "(string \<Rightarrow> real) \<Rightarrow> cell \<Rightarrow> int" where
  "coinCount luck c =
     \<lfloor>luck (show_int (cell_i c) @ '','' @ show_int (cell_j c) @ '',coinCount'') * 10\<rfloor> + 1"

text \<open>
  The state change of \<^verbatim>\<open>generatePopupContent\<close>; the rest of the function builds the
  popup, with a collect button for each uncollected coin of the cell and a deposit button.
\<close>

definition generatePopupContent :: "(string \<Rightarrow> real) \<Rightarrow> cell \<Rightarrow> game \<Rightarrow> game" where
  "generatePopupContent luck c s =
     (if toString c \<notin> spawnedCaches s
      then dispatchEvent ''game-state-changed''
             ((create_times (nat (coinCount luck c)) c s)
                \<lparr>spawnedCaches := insert (toString c) (spawnedCaches s)\<rparr>)
      else s)"

datatype outcome = Returned | Thrown js_error

text \<open>
  \<^verbatim>\<open>handleCoinDeposit\<close>. It runs from the deposit button of a generated popup; the
  cell is in \<^verbatim>\<open>spawnedCaches\<close> then, and the final \<^verbatim>\<open>rect.openPopup()\<close> creates no coins.
  When \<^verbatim>\<open>removeCoin\<close> throws, the pop, the cleared flag and the decrement have already
  happened.
\<close>

definition handleCoinDeposit :: "cell \<Rightarrow> game \<Rightarrow> outcome \<times> game" where
  "handleCoinDeposit c s =
     (if length (playerCoins s) > 0
      then (let depositedCoin = last (playerCoins s);
                s1 = s\<lparr>playerCoins := butlast (playerCoins s),
                       objs := (objs s)[depositedCoin :=
                                 (objs s ! depositedCoin)\<lparr>collected := False\<rparr>],
                       playerPoints := playerPoints s - 1\<rparr>
            in case removeCoin c depositedCoin s1 of
                 Inl e \<Rightarrow> (Thrown e, s1)
               | Inr s2 \<Rightarrow>
                   (Returned,
                    dispatchEvent ''game-state-changed'' (addCoinToCache c depositedCoin s2)))
      else (Returned, s\<lparr>alerts := alerts s @ [''No coins to deposit!'']\<rparr>))"

text \<open>The cells that the top-level loop visits, in its order.\<close>

definition neighborhood :: "(int \<times> int) list" where
  "neighborhood =
     concat (map (\<lambda>ci. map (\<lambda>cj. (ci, cj)) [- NEIGHBORHOOD_SIZE .. NEIGHBORHOOD_SIZE - 1])
                 [- NEIGHBORHOOD_SIZE .. NEIGHBORHOOD_SIZE - 1])"

definition lucky :: "(string \<Rightarrow> real) \<Rightarrow> int \<times> int \<Rightarrow> bool" where
  "lucky luck p = (luck (show_int (fst p) @ '','' @ show_int (snd p)) < CACHE_SPAWN_PROBABILITY)"

primrec spawnAll :: "(string \<Rightarrow> real) \<Rightarrow> (int \<times> int) list \<Rightarrow> game \<Rightarrow> game" where
  "spawnAll luck [] s = s"
| "spawnAll luck (p # ps) s =
     spawnAll luck ps (if lucky luck p then spawnCache (fst p) (snd p) s else s)"

definition spawnNeighborhood :: "(string \<Rightarrow> real) \<Rightarrow> game \<Rightarrow> game" where
  "spawnNeighborhood luck s = spawnAll luck neighborhood s"

subsection \<open>Mementos and the neighbourhood of the player (the version with \<^verbatim>\<open>cacheStateMemento\<close>)\<close>

text \<open>\<^verbatim>\<open>cacheStateMemento[cellKey] = { cellKey, coins: [...coins] }\<close>: a new array with the
  same coin references.\<close>

definition saveCacheState :: "cell \<Rightarrow> game \<Rightarrow> game" where
  "saveCacheState c s =
     s\<lparr>arrays := arrays s @ [getCoins c s],
       cacheStateMemento := (cacheStateMemento s)(toString c \<mapsto> (toString c, length (arrays s)))\<rparr>"

text \<open>\<^verbatim>\<open>geocoinFactory.coins[cellKey] = savedState.coins\<close>: the factory now holds the
  memento's own array.\<close>

definition restoreCacheState :: "cell \<Rightarrow> game \<Rightarrow> game" where
  "restoreCacheState c s =
     (case cacheStateMemento s (toString c) of
        None \<Rightarrow> s
      | Some savedState \<Rightarrow>
          s\<lparr>coins := (coins s)(toString c \<mapsto> snd savedState),
            spawnedCaches := insert (toString c) (spawnedCaches s)\<rparr>)"

text \<open>\<^verbatim>\<open>Math.round\<close>\<close>

definition js_round :: "real \<Rightarrow> int" where
  "js_round x = \<lfloor>x + 1 / 2\<rfloor>"

definition around :: "int \<Rightarrow> int \<Rightarrow> (int \<times> int) list" where
  "around playerI playerJ =
     concat (map (\<lambda>ci. map (\<lambda>cj. (ci, cj))
                    [playerJ - NEIGHBORHOOD_SIZE .. playerJ + NEIGHBORHOOD_SIZE])
                 [playerI - NEIGHBORHOOD_SIZE .. playerI + NEIGHBORHOOD_SIZE])"

text \<open>The body of the loop of \<^verbatim>\<open>spawnRelativeCache\<close> for the cell with indices \<open>p\<close>.\<close>

definition visit :: "(string \<Rightarrow> real) \<Rightarrow> int \<times> int \<Rightarrow> game \<Rightarrow> game" where
  "visit luck p s =
     (let c = createCell (fst p) (snd p)
      in if cacheStateMemento s (toString c) \<noteq> None then restoreCacheState c s
         else if lucky luck p then saveCacheState c (spawnCache (fst p) (snd p) s)
         else s)"

primrec visitAll :: "(string \<Rightarrow> real) \<Rightarrow> (int \<times> int) list \<Rightarrow> game \<Rightarrow> game" where
  "visitAll luck [] s = s"
| "visitAll luck (p # ps) s = visitAll luck ps (visit luck p s)"

text \<open>
  \<^verbatim>\<open>spawnRelativeCache\<close>. When \<^verbatim>\<open>playerPosition\<close> is not a LatLng its \<^verbatim>\<open>lat\<close> and
  \<^verbatim>\<open>lng\<close> are undefined, the loop bounds are NaN and no cell is visited.
\<close>

definition spawnRelativeCache :: "(string \<Rightarrow> real) \<Rightarrow> game \<Rightarrow> game" where
  "spawnRelativeCache luck s =
     (let s0 = s\<lparr>spawnedCaches := {}\<rparr>
      in case playerPosition s of
           Inherited n \<Rightarrow> s0
         | LatLng playerLat playerLng \<Rightarrow>
             visitAll luck
               (around (js_round ((playerLat - fst OAKES_CLASSROOM) / TILE_DEGREES))
                       (js_round ((playerLng - snd OAKES_CLASSROOM) / TILE_DEGREES))) s0)"

subsection \<open>Moving the player\<close>

text \<open>
  \<^verbatim>\<open>movement\<close> is an object literal with the four own properties \<^verbatim>\<open>north\<close>,
  \<^verbatim>\<open>south\<close>, \<^verbatim>\<open>east\<close>, \<^verbatim>\<open>west\<close>. \<^verbatim>\<open>movement[direction]\<close> is a property lookup: for
  a name that is not an own property it goes on to \<^verbatim>\<open>Object.prototype\<close>, whose members
  (functions, and \<^verbatim>\<open>Object.prototype\<close> itself for \<^verbatim>\<open>__proto__\<close>) are truthy. Any other
  name gives \<^verbatim>\<open>undefined\<close>. When \<^verbatim>\<open>playerPosition\<close> is not a LatLng, its \<^verbatim>\<open>lat\<close> and
  \<^verbatim>\<open>lng\<close> are undefined and \<^verbatim>\<open>leaflet.latLng\<close> returns \<^verbatim>\<open>null\<close> or \<^verbatim>\<open>undefined\<close> for
  each of the four directions, which the test \<^verbatim>\<open>if (movement[direction])\<close> takes as false.
  The result is the value that passes the test, if one does.
\<close>

definition objectPrototypeNames :: "string list" where
  "objectPrototypeNames =
     [''constructor'', ''hasOwnProperty'', ''isPrototypeOf'', ''propertyIsEnumerable'',
      ''toLocaleString'', ''toString'', ''valueOf'', ''__proto__'',
      ''__defineGetter__'', ''__defineSetter__'', ''__lookupGetter__'', ''__lookupSetter__'']"

definition movement :: "position \<Rightarrow> string \<Rightarrow> position option" where
  "movement pos direction =
     (if direction \<in> {''north'', ''south'', ''east'', ''west''}
      then (case pos of
              Inherited n \<Rightarrow> None
            | LatLng lat lng \<Rightarrow>
                (if direction = ''north'' then Some (LatLng (lat + TILE_DEGREES) lng)
                 else if direction = ''south'' then Some (LatLng (lat - TILE_DEGREES) lng)
                 else if direction = ''east'' then Some (LatLng lat (lng + TILE_DEGREES))
                 else Some (LatLng lat (lng - TILE_DEGREES))))
      else if direction \<in> set objectPrototypeNames then Some (Inherited direction)
      else None)"

text \<open>
  \<^verbatim>\<open>movePlayer\<close> of \<^verbatim>\<open>src/main.ts\<close>. The calls \<^verbatim>\<open>playerMarker.setLatLng\<close> and
  \<^verbatim>\<open>map.panTo\<close> come after the assignment to \<^verbatim>\<open>playerPosition\<close>; given a value that is
  not a LatLng the marker, which is on the map, throws a TypeError.
\<close>

definition movePlayer_main :: "string \<Rightarrow> game \<Rightarrow> outcome \<times> game" where
  "movePlayer_main direction s =
     (case movement (playerPosition s) direction of
        None \<Rightarrow> (Returned, s)
      | Some (LatLng nlat nlng) \<Rightarrow> (Returned, s\<lparr>playerPosition := LatLng nlat nlng\<rparr>)
      | Some (Inherited n) \<Rightarrow> (Thrown TypeError, s\<lparr>playerPosition := Inherited n\<rparr>))"

definition updatePlayerMovementHistory :: "game \<Rightarrow> game" where
  "updatePlayerMovementHistory s =
     s\<lparr>playerMovementHistory := playerMovementHistory s @ [playerPosition s]\<rparr>"

text \<open>\<^verbatim>\<open>movePlayer\<close> of the version with mementos and a movement history.\<close>

definition movePlayer :: "(string \<Rightarrow> real) \<Rightarrow> string \<Rightarrow> game \<Rightarrow> outcome \<times> game" where
  "movePlayer luck direction s =
     (case movement (playerPosition s) direction of
        None \<Rightarrow> (Returned, s)
      | Some (LatLng nlat nlng) \<Rightarrow>
          (Returned,
           updatePlayerMovementHistory
             (spawnRelativeCache luck (s\<lparr>playerPosition := LatLng nlat nlng\<rparr>)))
      | Some (Inherited n) \<Rightarrow> (Thrown TypeError, s\<lparr>playerPosition := Inherited n\<rparr>))"

subsection \<open>Resetting the game (the version with \<^verbatim>\<open>GameStateManager\<close>)\<close>

definition resetPlayer :: "game \<Rightarrow> game" where
  "resetPlayer s =
     s\<lparr>playerCoins := [], playerPoints := 0,
       playerPosition := LatLng (fst OAKES_CLASSROOM) (snd OAKES_CLASSROOM),
       playerMovementHistory := []\<rparr>"

text \<open>\<^verbatim>\<open>toLowerCase\<close> on the letters A to Z, which is all the comparison with \<^verbatim>\<open>"yes"\<close> needs.\<close>

definition toLowerCase :: "string \<Rightarrow> string" where
  "toLowerCase t =
     map (\<lambda>ch. case map_of (zip ''ABCDEFGHIJKLMNOPQRSTUVWXYZ'' ''abcdefghijklmnopqrstuvwxyz'') ch of
                 None \<Rightarrow> ch | Some l \<Rightarrow> l) t"

text \<open>
  One round of the \<^verbatim>\<open>forEach\<close> in \<^verbatim>\<open>resetGameState\<close>:
  \<^verbatim>\<open>coin.collected = false; const originalCell = createCell(coin.latitude, coin.longitude);\<close>
  \<^verbatim>\<open>geocoinFactory.addCoinToCache(originalCell, coin)\<close>. The cell is built from the coin's
  latitude and longitude, so its key is \<^verbatim>\<open>`${latitude}:${longitude}`\<close>; \<open>numStr\<close> is the
  rendering of such a number in a template literal.
\<close>

definition returnCoin :: "(real \<Rightarrow> string) \<Rightarrow> nat \<Rightarrow> game \<Rightarrow> game" where
  "returnCoin numStr a s =
     (let s1 = s\<lparr>objs := (objs s)[a := (objs s ! a)\<lparr>collected := False\<rparr>]\<rparr>
      in pushCoin (numStr (latitude (objs s ! a)) @ '':'' @ numStr (longitude (objs s ! a))) a s1)"

text \<open>\<^verbatim>\<open>resetGameState\<close>; \<open>answer\<close> is what \<^verbatim>\<open>prompt\<close> returned (\<open>None\<close> for null).\<close>

definition resetGameState :: "(real \<Rightarrow> string) \<Rightarrow> string option \<Rightarrow> game \<Rightarrow> game" where
  "resetGameState numStr answer s =
     (if map_option toLowerCase answer = Some ''yes''
      then (let s1 = fold (returnCoin numStr) (playerCoins s) s;
                s2 = resetPlayer s1;
                s3 = s2\<lparr>spawnedCaches := {}, cacheStateMemento := Map.empty\<rparr>
            in s3\<lparr>alerts := alerts s3 @ [''Game state has been reset!'']\<rparr>)
      else s\<lparr>alerts := alerts s @ [''Game state reset cancelled.'']\<rparr>)"

subsection \<open>The cell registry (\<^verbatim>\<open>Board\<close>)\<close>

text \<open>
  The \<^verbatim>\<open>ConcreteCell\<close> objects live in a store of their own; \<^verbatim>\<open>knownCells\<close> maps a key
  to the reference of the canonical cell. The visibility radius is a whole number of tiles.
\<close>

record board =
  tileWidth :: real
  tileVisibilityRadius :: int
  cellObjs :: "cell list"
  knownCells :: "string \<rightharpoonup> nat"

definition newBoard :: "real \<Rightarrow> int \<Rightarrow> board" where
  "newBoard tw r = \<lparr> tileWidth = tw, tileVisibilityRadius = r, cellObjs = [],
                      knownCells = Map.empty \<rparr>"

definition newConcreteCell :: "int \<Rightarrow> int \<Rightarrow> board \<Rightarrow> nat \<times> board" where
  "newConcreteCell ci cj b = (length (cellObjs b), b\<lparr>cellObjs := cellObjs b @ [Cell ci cj]\<rparr>)"

definition getCanonicalCell :: "nat \<Rightarrow> board \<Rightarrow> nat \<times> board" where
  "getCanonicalCell a b =
     (let key = toString (cellObjs b ! a)
      in case knownCells b key of
           None \<Rightarrow> (a, b\<lparr>knownCells := (knownCells b)(key \<mapsto> a)\<rparr>)
         | Some a' \<Rightarrow> (a', b))"

text \<open>The indices \<^verbatim>\<open>Math.floor(point.lat / this.tileWidth)\<close> and the same for \<^verbatim>\<open>lng\<close>.\<close>

definition pointIndices :: "board \<Rightarrow> real \<times> real \<Rightarrow> int \<times> int" where
  "pointIndices b point = (\<lfloor>fst point / tileWidth b\<rfloor>, \<lfloor>snd point / tileWidth b\<rfloor>)"

definition getCellForPoint :: "real \<times> real \<Rightarrow> board \<Rightarrow> nat \<times> board" where
  "getCellForPoint point b =
     (let ij = pointIndices b point;
          cb = newConcreteCell (fst ij) (snd ij) b
      in getCanonicalCell (fst cb) (snd cb))"

primrec nearAll :: "cell \<Rightarrow> (int \<times> int) list \<Rightarrow> nat list \<times> board \<Rightarrow> nat list \<times> board" where
  "nearAll originCell [] rb = rb"
| "nearAll originCell (d # ds) rb =
     nearAll originCell ds
       (let cb = newConcreteCell (cell_i originCell + fst d) (cell_j originCell + snd d) (snd rb);
            ab = getCanonicalCell (fst cb) (snd cb)
        in (fst rb @ [fst ab], snd ab))"

definition offsets :: "int \<Rightarrow> (int \<times> int) list" where
  "offsets r = concat (map (\<lambda>di. map (\<lambda>dj. (di, dj)) [- r .. r]) [- r .. r])"

definition getCellsNearPoint :: "real \<times> real \<Rightarrow> board \<Rightarrow> nat list \<times> board" where
  "getCellsNearPoint point b =
     (let ob = getCellForPoint point b
      in nearAll (cellObjs (snd ob) ! fst ob) (offsets (tileVisibilityRadius b)) ([], snd ob))"

datatype board_op = ForPoint "real \<times> real" | NearPoint "real \<times> real"

fun board_step :: "board \<Rightarrow> board_op \<Rightarrow> board" where
  "board_step b (ForPoint p) = snd (getCellForPoint p b)"
| "board_step b (NearPoint p) = snd (getCellsNearPoint p b)"

subsection \<open>The scenario of the specification\<close>

text \<open>A \<^verbatim>\<open>luck\<close> for which only cell (0, 0) spawns a cache, with \<open>0.37\<close> for its coin count.\<close>

definition scenario_luck :: "string \<Rightarrow> real" where
  "scenario_luck k = (if k = ''0,0'' then 0.05 else if k = ''0,0,coinCount'' then 0.37 else 0.5)"

definition scenario_start :: game where
  "scenario_start =
     generatePopupContent scenario_luck (Cell 0 0) (spawnNeighborhood scenario_luck init_game)"

subsection \<open>States that the ledger operations reach\<close>

text \<open>
  The module starts by spawning the neighbourhood; after that the popup of a cell is
  opened, a coin is created, a coin's \<^verbatim>\<open>collect\<close> is called, or a deposit is made at a
  cell, in any order. A deposit that throws leaves the state it had reached.
\<close>

inductive reachable :: "(string \<Rightarrow> real) \<Rightarrow> game \<Rightarrow> bool" for luck where
  r_init: "reachable luck (spawnNeighborhood luck init_game)"
| r_popup: "reachable luck s \<Longrightarrow> reachable luck (generatePopupContent luck c s)"
| r_create: "reachable luck s \<Longrightarrow> reachable luck (snd (create c s))"
| r_collect: "reachable luck s \<Longrightarrow> a < length (objs s) \<Longrightarrow> reachable luck (collect a s)"
| r_deposit: "reachable luck s \<Longrightarrow> reachable luck (snd (handleCoinDeposit c s))"

subsection \<open>Invariants of the ledger\<close>

text \<open>
  References are in range; the inventory holds exactly the coins whose flag is set, once
  each; every coin is in the token list of some cell; the serial of a coin is below the
  length of the list of its origin cell; coins of one origin have different serials.
\<close>

definition refs_ok :: "game \<Rightarrow> bool" where
  "refs_ok s \<longleftrightarrow>
     (\<forall>k r. coins s k = Some r \<longrightarrow> r < length (arrays s)) \<and>
     (\<forall>a \<in> set (playerCoins s). a < length (objs s))"

definition held_inv :: "game \<Rightarrow> bool" where
  "held_inv s \<longleftrightarrow>
     distinct (playerCoins s) \<and>
     (\<forall>a < length (objs s). collected (objs s ! a) \<longleftrightarrow> a \<in> set (playerCoins s))"

definition cached_inv :: "game \<Rightarrow> bool" where
  "cached_inv s \<longleftrightarrow>
     (\<forall>a < length (objs s). \<exists>c r. coins s (toString c) = Some r \<and> a \<in> set (arrays s ! r))"

definition serial_inv :: "game \<Rightarrow> bool" where
  "serial_inv s \<longleftrightarrow>
     (\<forall>a < length (objs s). \<forall>c.
        latitude (objs s ! a) = fst (toLatLng c) \<and> longitude (objs s ! a) = snd (toLatLng c) \<longrightarrow>
        (\<exists>r. coins s (toString c) = Some r \<and> serial (objs s ! a) < length (arrays s ! r)))"

definition serial_unique :: "game \<Rightarrow> bool" where
  "serial_unique s \<longleftrightarrow>
     (\<forall>a < length (objs s). \<forall>b < length (objs s).
        a \<noteq> b \<and> latitude (objs s ! a) = latitude (objs s ! b) \<and>
        longitude (objs s ! a) = longitude (objs s ! b) \<longrightarrow>
        serial (objs s ! a) \<noteq> serial (objs s ! b))"

text \<open>No cache list loses an element or gets shorter, and no cell loses its list.\<close>

definition grows :: "game \<Rightarrow> game \<Rightarrow> bool" where
  "grows s s' \<longleftrightarrow>
     (\<forall>k r. coins s k = Some r \<longrightarrow>
        coins s' k = Some r \<and> set (arrays s ! r) \<subseteq> set (arrays s' ! r) \<and>
        length (arrays s ! r) \<le> length (arrays s' ! r))"

text \<open>The same coins with the same origin and serial; only flags may differ.\<close>

definition same_coins :: "game \<Rightarrow> game \<Rightarrow> bool" where
  "same_coins s s' \<longleftrightarrow>
     length (objs s') = length (objs s) \<and>
     (\<forall>a < length (objs s). latitude (objs s' ! a) = latitude (objs s ! a) \<and>
        longitude (objs s' ! a) = longitude (objs s ! a) \<and>
        serial (objs s' ! a) = serial (objs s ! a))"

definition ledger_inv :: "game \<Rightarrow> bool" where
  "ledger_inv s \<longleftrightarrow> refs_ok s \<and> held_inv s \<and> cached_inv s \<and> serial_inv s \<and> serial_unique s"

text \<open>
  Two coins are created for cell (0, 0), the first is taken out of the cache with
  \<^verbatim>\<open>removeCoin\<close>, and a third coin is created.
\<close>

definition reissue_state :: game where
  "reissue_state =
     (case removeCoin (Cell 0 0) 0 (snd (create (Cell 0 0) (snd (create (Cell 0 0) init_game)))) of
        Inl e \<Rightarrow> init_game
      | Inr s \<Rightarrow> snd (create (Cell 0 0) s))"

text \<open>
  A coin is created for cell (0, 0) and one for cell (0, 1); the first is collected and
  deposited at cell (0, 1); then another coin is created for cell (0, 1).
\<close>

definition foreign_deposit_state :: game where
  "foreign_deposit_state =
     snd (create (Cell 0 1)
       (snd (handleCoinDeposit (Cell 0 1)
          (collect 0 (snd (create (Cell 0 1) (snd (create (Cell 0 0) init_game))))))))"

subsection \<open>Boards that the registry operations reach\<close>

text \<open>
  A board is made with a tile width other than zero (with a zero width every index is
  Infinity or NaN, which \<^typ>\<open>int\<close> does not model) and then serves lookups. A known cell
  is stored under its own key; a later board knows every cell an earlier one knew.
\<close>

inductive board_reachable :: "board \<Rightarrow> bool" where
  b_new: "tw \<noteq> 0 \<Longrightarrow> board_reachable (newBoard tw r)"
| b_step: "board_reachable b \<Longrightarrow> board_reachable (board_step b op)"

definition board_wf :: "board \<Rightarrow> bool" where
  "board_wf b \<longleftrightarrow>
     (\<forall>k a. knownCells b k = Some a \<longrightarrow> a < length (cellObjs b) \<and> toString (cellObjs b ! a) = k)"

definition board_le :: "board \<Rightarrow> board \<Rightarrow> bool" where
  "board_le b b' \<longleftrightarrow>
     tileWidth b' = tileWidth b \<and> tileVisibilityRadius b' = tileVisibilityRadius b \<and>
     (\<forall>k a. knownCells b k = Some a \<longrightarrow> knownCells b' k = Some a) \<and>
     length (cellObjs b) \<le> length (cellObjs b') \<and>
     (\<forall>a < length (cellObjs b). cellObjs b' ! a = cellObjs b ! a)"

text \<open>A board with tiles of width \<open>0.0001\<close> on which the point (0, 0) has been looked up.\<close>

definition scenario_board :: board where
  "scenario_board = board_step (newBoard 0.0001 1) (ForPoint (0, 0))"

subsection \<open>The state in which a reset goes wrong\<close>

text \<open>
  With \<open>scenario_luck\<close> only cell (0, 0) is lucky. The module's first neighbourhood scan
  spawns its cache and saves the still empty token list; the popup is opened, which creates
  the four coins; coin 0 is collected; the player moves north, and the scan after the move
  restores the saved list. (The version with \<^verbatim>\<open>GameStateManager\<close> records the new position
  in the history before the scan instead of after it, with the same result.)
\<close>

definition reset_scenario :: game where
  "reset_scenario =
     snd (movePlayer scenario_luck ''north''
            (collect 0
               (generatePopupContent scenario_luck (Cell 0 0)
                  (spawnRelativeCache scenario_luck init_game))))"

text \<open>The rendering of the latitude and the longitude of the classroom in a template literal.\<close>

definition scenario_numStr :: "real \<Rightarrow> string" where
  "scenario_numStr x =
     (if x = 36.98949379578401 then ''36.98949379578401'' else ''-122.06277128548504'')"

section \<open>Properties\<close>

subsection \<open>What each operation leaves alone\<close>

lemma spawnAll_fields:
  "playerCoins (spawnAll luck ps s) = playerCoins s"
  "playerPoints (spawnAll luck ps s) = playerPoints s"
  "objs (spawnAll luck ps s) = objs s"
  "arrays (spawnAll luck ps s) = arrays s"
  "coins (spawnAll luck ps s) = coins s"
  "spawnedCaches (spawnAll luck ps s) = spawnedCaches s"
  by (induction ps arbitrary: s; simp add: spawnCache_def)+

lemma pushCoin_fields:
  "playerCoins (pushCoin k a s) = playerCoins s"
  "playerPoints (pushCoin k a s) = playerPoints s"
  "objs (pushCoin k a s) = objs s"
  by (simp_all add: pushCoin_def split: option.splits)

lemma create_fields:
  "playerCoins (snd (create c s)) = playerCoins s"
  "playerPoints (snd (create c s)) = playerPoints s"
  by (simp_all add: create_def Let_def pushCoin_fields)

lemma create_times_fields:
  "playerCoins (create_times n c s) = playerCoins s"
  "playerPoints (create_times n c s) = playerPoints s"
  by (induction n arbitrary: s; simp add: create_fields)+

lemma popup_fields:
  "playerCoins (generatePopupContent luck c s) = playerCoins s"
  "playerPoints (generatePopupContent luck c s) = playerPoints s"
  by (simp_all add: generatePopupContent_def dispatchEvent_def create_times_fields)

lemma deposit_points:
  "playerPoints s = int (length (playerCoins s)) \<Longrightarrow>
   playerPoints (snd (handleCoinDeposit c s)) = int (length (playerCoins (snd (handleCoinDeposit c s))))"
  by (cases "playerCoins s" rule: rev_cases)
     (auto simp: handleCoinDeposit_def Let_def removeCoin_def addCoinToCache_def
        dispatchEvent_def pushCoin_fields split: option.splits sum.splits)

subsection \<open>Creating coins; the scenario state\<close>

lemma create_None:
  "coins s (toString c) = None \<Longrightarrow>
   snd (create c s) = s\<lparr>objs := objs s @ [newCoin c 0], arrays := arrays s @ [[length (objs s)]],
       coins := (coins s)(toString c \<mapsto> length (arrays s))\<rparr>"
  by (simp add: create_def pushCoin_def Let_def)

lemma create_Some:
  "coins s (toString c) = Some r \<Longrightarrow>
   snd (create c s) = s\<lparr>objs := objs s @ [newCoin c (length (arrays s ! r))],
       arrays := (arrays s)[r := arrays s ! r @ [length (objs s)]]\<rparr>"
  by (simp add: create_def pushCoin_def Let_def)

lemma create_times_Some:
  "coins s (toString c) = Some r \<Longrightarrow> r < length (arrays s) \<Longrightarrow>
   create_times n c s = s\<lparr>objs := objs s @ map (\<lambda>k. newCoin c (length (arrays s ! r) + k)) [0..<n],
       arrays := (arrays s)[r := arrays s ! r @ [length (objs s) ..< length (objs s) + n]]\<rparr>"
proof (induction n arbitrary: s)
  case 0
  then show ?case by simp
next
  case (Suc n)
  let ?s1 = "snd (create c s)"
  have s1: "?s1 = s\<lparr>objs := objs s @ [newCoin c (length (arrays s ! r))],
       arrays := (arrays s)[r := arrays s ! r @ [length (objs s)]]\<rparr>"
    using Suc.prems(1) by (rule create_Some)
  have c1: "coins ?s1 (toString c) = Some r" and r1: "r < length (arrays ?s1)"
    using Suc.prems by (simp_all add: s1)
  have "create_times (Suc n) c s = create_times n c ?s1" by simp
  also have "\<dots> = ?s1\<lparr>objs := objs ?s1 @ map (\<lambda>k. newCoin c (length (arrays ?s1 ! r) + k)) [0..<n],
       arrays := (arrays ?s1)[r := arrays ?s1 ! r @ [length (objs ?s1) ..< length (objs ?s1) + n]]\<rparr>"
    using c1 r1 by (rule Suc.IH)
  also have "\<dots> = s\<lparr>objs := objs s @ map (\<lambda>k. newCoin c (length (arrays s ! r) + k)) [0..<Suc n],
       arrays := (arrays s)[r := arrays s ! r @ [length (objs s) ..< length (objs s) + Suc n]]\<rparr>"
  proof -
    have m: "map (\<lambda>k. newCoin c (length (arrays s ! r) + k)) [Suc 0..<Suc n] =
             map (\<lambda>k. newCoin c (Suc (length (arrays s ! r) + k))) [0..<n]"
      by (simp add: map_Suc_upt [symmetric] del: upt_Suc)
    show ?thesis
      using Suc.prems(2) by (simp add: s1 upt_conv_Cons m del: upt.simps)
  qed
  finally show ?case .
qed

lemma create_times_None:
  assumes "coins s (toString c) = None"
  shows "create_times (Suc n) c s =
    s\<lparr>objs := objs s @ map (newCoin c) [0..<Suc n],
      arrays := arrays s @ [[length (objs s) ..< length (objs s) + Suc n]],
      coins := (coins s)(toString c \<mapsto> length (arrays s))\<rparr>"
proof -
  let ?s1 = "snd (create c s)"
  have s1: "?s1 = s\<lparr>objs := objs s @ [newCoin c 0], arrays := arrays s @ [[length (objs s)]],
       coins := (coins s)(toString c \<mapsto> length (arrays s))\<rparr>"
    using assms by (rule create_None)
  have c1: "coins ?s1 (toString c) = Some (length (arrays s))"
    and r1: "length (arrays s) < length (arrays ?s1)"
    by (simp_all add: s1)
  have m: "map (newCoin c) [Suc 0..<Suc n] = map (\<lambda>k. newCoin c (Suc k)) [0..<n]"
    by (simp add: map_Suc_upt [symmetric] del: upt_Suc)
  have "create_times (Suc n) c s = create_times n c ?s1" by simp
  also note create_times_Some [OF c1 r1, of n]
  also have "?s1\<lparr>objs := objs ?s1 @ map (\<lambda>k. newCoin c (length (arrays ?s1 ! length (arrays s)) + k)) [0..<n],
       arrays := (arrays ?s1)[length (arrays s) := arrays ?s1 ! length (arrays s) @ [length (objs ?s1) ..< length (objs ?s1) + n]]\<rparr>
     = s\<lparr>objs := objs s @ map (newCoin c) [0..<Suc n],
      arrays := arrays s @ [[length (objs s) ..< length (objs s) + Suc n]],
      coins := (coins s)(toString c \<mapsto> length (arrays s))\<rparr>"
    by (simp add: s1 upt_conv_Cons m del: upt.simps)
  finally show ?thesis .
qed

lemma spawnAll_rects: "spawnAll luck ps s = s\<lparr>rects := rects s @ filter (lucky luck) ps\<rparr>"
  by (induction ps arbitrary: s) (simp_all add: spawnCache_def)

lemma spawnNeighborhood_init:
  "spawnNeighborhood luck init_game = init_game\<lparr>rects := filter (lucky luck) neighborhood\<rparr>"
  by (simp add: spawnNeighborhood_def spawnAll_rects init_game_def)

lemma toString_origin: "toString (Cell 0 0) = ''0:0''"
  by (simp add: toString_def show_int_def show_nat.simps digit_def)

lemma scenario_coinCount: "coinCount scenario_luck (Cell 0 0) = 4"
  by (simp add: coinCount_def scenario_luck_def show_int_def show_nat.simps digit_def)

lemma scenario_start_eq:
  "scenario_start =
     init_game\<lparr>objs := map (newCoin (Cell 0 0)) [0, 1, 2, 3], arrays := [[0, 1, 2, 3]],
       coins := [''0:0'' \<mapsto> 0], spawnedCaches := {''0:0''},
       rects := filter (lucky scenario_luck) neighborhood,
       events := [''game-state-changed'']\<rparr>"
proof -
  define s0 where "s0 = init_game\<lparr>rects := filter (lucky scenario_luck) neighborhood\<rparr>"
  have n: "coins s0 (toString (Cell 0 0)) = None"
    by (simp add: s0_def init_game_def)
  have "create_times (Suc 3) (Cell 0 0) s0 =
     s0\<lparr>objs := objs s0 @ map (newCoin (Cell 0 0)) [0..<Suc 3],
      arrays := arrays s0 @ [[length (objs s0) ..< length (objs s0) + Suc 3]],
      coins := (coins s0)(toString (Cell 0 0) \<mapsto> length (arrays s0))\<rparr>"
    using n by (rule create_times_None)
  moreover have "nat 4 = Suc 3" by simp
  moreover have "[0..<Suc 3] = [0, 1, 2, 3]" by (simp add: upt_conv_Cons)
  moreover have "scenario_start = generatePopupContent scenario_luck (Cell 0 0) s0"
    by (simp add: scenario_start_def spawnNeighborhood_init s0_def)
  ultimately show ?thesis
    by (simp add: generatePopupContent_def scenario_coinCount s0_def
        init_game_def dispatchEvent_def toString_origin)
qed

lemma scenario_start_reachable: "reachable scenario_luck scenario_start"
  unfolding scenario_start_def by (intro r_popup r_init)

lemma scenario_collect_reachable: "reachable scenario_luck (collect 0 scenario_start)"
  by (rule r_collect [OF scenario_start_reachable]) (simp add: scenario_start_eq)

lemma scenario_collect_eq:
  "collect 0 scenario_start =
     init_game\<lparr>objs := (newCoin (Cell 0 0) 0)\<lparr>collected := True\<rparr> #
                       map (newCoin (Cell 0 0)) [1, 2, 3],
       arrays := [[0, 1, 2, 3]], coins := [''0:0'' \<mapsto> 0],
       playerCoins := [0], playerPoints := 1, spawnedCaches := {''0:0''},
       rects := filter (lucky scenario_luck) neighborhood,
       events := [''game-state-changed'', ''game-state-changed'']\<rparr>"
  by (simp add: scenario_start_eq collect_def dispatchEvent_def newCoin_def init_game_def)

subsection \<open>C5: the score is the length of the inventory\<close>

text \<open>
  C5. In every state that the operations reach, whatever the interleaving of collects and
  deposits (and of popups and creations), \<^verbatim>\<open>playerPoints\<close> equals the length of
  \<^verbatim>\<open>playerCoins\<close>: \<^verbatim>\<open>collect\<close> pushes one coin and adds one point, a deposit pops one
  coin and takes one point, nothing else touches either.
\<close>

theorem score_is_inventory_length:
  "reachable luck s \<Longrightarrow> playerPoints s = int (length (playerCoins s))"
proof (induction rule: reachable.induct)
  case r_init
  show ?case by (simp add: spawnNeighborhood_def spawnAll_fields init_game_def)
next
  case (r_popup s c)
  then show ?case by (simp add: popup_fields)
next
  case (r_create s c)
  then show ?case by (simp add: create_fields)
next
  case (r_collect s a)
  then show ?case by (simp add: collect_def dispatchEvent_def)
next
  case (r_deposit s c)
  from r_deposit.IH show ?case by (rule deposit_points)
qed

theorem score_is_inventory_length_witness:
  "reachable scenario_luck (collect 0 scenario_start) \<and>
   playerPoints (collect 0 scenario_start) = 1 \<and>
   length (playerCoins (collect 0 scenario_start)) = 1"
  using score_is_inventory_length [OF scenario_collect_reachable] scenario_collect_reachable
  by (simp add: scenario_collect_eq)

subsection \<open>C2: what \<^verbatim>\<open>collect\<close> does\<close>

lemma getCoins_collect: "getCoins c (collect a s) = getCoins c s"
  by (simp add: getCoins_def collect_def dispatchEvent_def split: option.splits)

text \<open>
  C2, as the code has it. \<^verbatim>\<open>collect\<close> on a collected coin changes nothing, so a second
  \<^verbatim>\<open>collect\<close> is a no-op. On an uncollected coin it sets the flag, appends the coin to
  \<^verbatim>\<open>playerCoins\<close>, adds one point and dispatches \<^verbatim>\<open>game-state-changed\<close>; it does not
  touch \<^verbatim>\<open>geocoinFactory.coins\<close>: every cache's token list, the coin's own included, is
  what it was.
\<close>

theorem collect_effect:
  "a < length (objs s) \<Longrightarrow>
     (collected (objs s ! a) \<longrightarrow> collect a s = s) \<and>
     collect a (collect a s) = collect a s \<and>
     (\<not> collected (objs s ! a) \<longrightarrow>
        objs (collect a s) = (objs s)[a := (objs s ! a)\<lparr>collected := True\<rparr>] \<and>
        collected (objs (collect a s) ! a) \<and>
        arrays (collect a s) = arrays s \<and> coins (collect a s) = coins s \<and>
        getCoins c (collect a s) = getCoins c s \<and>
        playerCoins (collect a s) = playerCoins s @ [a] \<and>
        playerPoints (collect a s) = playerPoints s + 1 \<and>
        events (collect a s) = events s @ [''game-state-changed''])"
  by (simp add: collect_def dispatchEvent_def getCoins_def split: option.splits)

theorem collect_effect_witness:
  "0 < length (objs scenario_start) \<and> \<not> collected (objs scenario_start ! 0) \<and>
   getCoins (Cell 0 0) (collect 0 scenario_start) = getCoins (Cell 0 0) scenario_start \<and>
   playerCoins (collect 0 scenario_start) = playerCoins scenario_start @ [0] \<and>
   playerPoints (collect 0 scenario_start) = playerPoints scenario_start + 1 \<and>
   collect 0 (collect 0 scenario_start) = collect 0 scenario_start"
proof -
  have h: "0 < length (objs scenario_start)" by (simp add: scenario_start_eq)
  have n: "\<not> collected (objs scenario_start ! 0)" by (simp add: scenario_start_eq newCoin_def)
  show ?thesis using collect_effect [OF h, of "Cell 0 0"] h n by simp
qed

text \<open>
  The claim as written has \<^verbatim>\<open>collect\<close> remove the coin from its cache's token list. In
  the scenario the cache of cell (0, 0) holds the coins 0 to 3; coin 0 is uncollected, and
  after \<^verbatim>\<open>collect\<close> the list still holds it.
\<close>

theorem collect_keeps_coin_in_cache:
  "\<not> collected (objs scenario_start ! 0) \<and>
   getCoins (Cell 0 0) scenario_start = [0, 1, 2, 3] \<and>
   getCoins (Cell 0 0) (collect 0 scenario_start) = [0, 1, 2, 3]"
  by (simp add: getCoins_collect) (simp add: scenario_start_eq newCoin_def getCoins_def toString_origin)

subsection \<open>C7: what a deposit does\<close>

text \<open>
  C7, as the code has it, for a cell that has a token list (every cell whose popup was
  generated has one). With a non-empty inventory the deposit pops the coin collected last,
  clears its flag, takes one point, and puts the coin at the end of the cell's list after
  splicing out the occurrence the list may already hold, so the coin is moved to the end
  rather than appended when it is already there; no other array changes and
  \<^verbatim>\<open>game-state-changed\<close> is dispatched. With an empty inventory the only effect is the
  alert \<^verbatim>\<open>No coins to deposit!\<close>.
\<close>

theorem deposit_effect:
  assumes "coins s (toString c) = Some r" and "r < length (arrays s)"
    and "\<forall>a \<in> set (playerCoins s). a < length (objs s)"
  shows "(playerCoins s \<noteq> [] \<longrightarrow>
           fst (handleCoinDeposit c s) = Returned \<and>
           playerCoins (snd (handleCoinDeposit c s)) = butlast (playerCoins s) \<and>
           objs (snd (handleCoinDeposit c s)) =
             (objs s)[last (playerCoins s) := (objs s ! last (playerCoins s))\<lparr>collected := False\<rparr>] \<and>
           \<not> collected (objs (snd (handleCoinDeposit c s)) ! last (playerCoins s)) \<and>
           playerPoints (snd (handleCoinDeposit c s)) = playerPoints s - 1 \<and>
           getCoins c (snd (handleCoinDeposit c s)) =
             remove1 (last (playerCoins s)) (getCoins c s) @ [last (playerCoins s)] \<and>
           coins (snd (handleCoinDeposit c s)) = coins s \<and>
           (\<forall>r'. r' \<noteq> r \<longrightarrow> arrays (snd (handleCoinDeposit c s)) ! r' = arrays s ! r') \<and>
           events (snd (handleCoinDeposit c s)) = events s @ [''game-state-changed'']) \<and>
         (playerCoins s = [] \<longrightarrow>
           handleCoinDeposit c s = (Returned, s\<lparr>alerts := alerts s @ [''No coins to deposit!'']\<rparr>))"
proof (cases "playerCoins s = []")
  case True
  then show ?thesis by (simp add: handleCoinDeposit_def)
next
  case False
  then have "last (playerCoins s) < length (objs s)" using assms(3) by simp
  with False assms(1,2) show ?thesis
    by (simp add: handleCoinDeposit_def Let_def removeCoin_def addCoinToCache_def
        pushCoin_def dispatchEvent_def getCoins_def remove1_idem)
qed

lemma scenario_collect_deposit:
  "getCoins (Cell 0 0) (collect 0 scenario_start) = [0, 1, 2, 3]"
  "playerCoins (collect 0 scenario_start) = [0]"
  "getCoins (Cell 0 0) (snd (handleCoinDeposit (Cell 0 0) (collect 0 scenario_start))) = [1, 2, 3, 0]"
  by (simp_all add: scenario_collect_eq handleCoinDeposit_def Let_def removeCoin_def
      addCoinToCache_def pushCoin_def dispatchEvent_def getCoins_def toString_origin init_game_def)

theorem deposit_effect_witness:
  "coins (collect 0 scenario_start) (toString (Cell 0 0)) = Some 0 \<and>
   playerCoins (collect 0 scenario_start) \<noteq> [] \<and>
   fst (handleCoinDeposit (Cell 0 0) (collect 0 scenario_start)) = Returned \<and>
   playerCoins (snd (handleCoinDeposit (Cell 0 0) (collect 0 scenario_start))) = [] \<and>
   playerPoints (snd (handleCoinDeposit (Cell 0 0) (collect 0 scenario_start))) = 0 \<and>
   getCoins (Cell 0 0) (snd (handleCoinDeposit (Cell 0 0) (collect 0 scenario_start))) = [1, 2, 3, 0]"
proof -
  have h1: "coins (collect 0 scenario_start) (toString (Cell 0 0)) = Some 0"
    by (simp add: scenario_collect_eq toString_origin)
  have h2: "0 < length (arrays (collect 0 scenario_start))"
    by (simp add: scenario_collect_eq)
  have h3: "\<forall>a \<in> set (playerCoins (collect 0 scenario_start)).
              a < length (objs (collect 0 scenario_start))"
    by (simp add: scenario_collect_eq)
  show ?thesis
    using deposit_effect [OF h1 h2 h3] h1
    by (simp add: scenario_collect_deposit(1,2)) (simp add: scenario_collect_eq)
qed

text \<open>
  The claim as written has the deposit append the coin to the cell's list. After coin 0 of
  cell (0, 0) is collected and deposited back, the list is 1, 2, 3, 0: the list 0, 1, 2, 3
  with coin 0 moved to the end, not with coin 0 appended.
\<close>

theorem deposit_moves_coin_to_end:
  "playerCoins (collect 0 scenario_start) = [0] \<and>
   getCoins (Cell 0 0) (collect 0 scenario_start) = [0, 1, 2, 3] \<and>
   getCoins (Cell 0 0) (snd (handleCoinDeposit (Cell 0 0) (collect 0 scenario_start))) = [1, 2, 3, 0] \<and>
   getCoins (Cell 0 0) (snd (handleCoinDeposit (Cell 0 0) (collect 0 scenario_start)))
     \<noteq> getCoins (Cell 0 0) (collect 0 scenario_start) @ [0]"
  by (simp add: scenario_collect_deposit)

subsection \<open>C6: which cells spawn a cache, and the first generation of a cache\<close>

lemma set_neighborhood:
  "p \<in> set neighborhood \<longleftrightarrow>
     - NEIGHBORHOOD_SIZE \<le> fst p \<and> fst p < NEIGHBORHOOD_SIZE \<and>
     - NEIGHBORHOOD_SIZE \<le> snd p \<and> snd p < NEIGHBORHOOD_SIZE"
  by (cases p) (force simp: neighborhood_def)

lemma rects_spawnNeighborhood:
  "p \<in> set (rects (spawnNeighborhood luck init_game)) \<longleftrightarrow> p \<in> set neighborhood \<and> lucky luck p"
  by (simp add: spawnNeighborhood_def spawnAll_rects) (simp add: init_game_def)

lemma first_generation:
  assumes "toString c \<notin> spawnedCaches s" and "coins s (toString c) = None"
    and "0 \<le> coinCount luck c - 1"
  shows "int (length (getCoins c (generatePopupContent luck c s))) = coinCount luck c"
    and "map (\<lambda>a. serial (objs (generatePopupContent luck c s) ! a))
           (getCoins c (generatePopupContent luck c s)) =
         [0 ..< length (getCoins c (generatePopupContent luck c s))]"
proof -
  obtain n where n: "nat (coinCount luck c) = Suc n"
    using assms(3) by (metis Suc_nat_eq_nat_zadd1 add.commute diff_add_cancel)
  have g: "generatePopupContent luck c s =
      dispatchEvent ''game-state-changed''
        (s\<lparr>objs := objs s @ map (newCoin c) [0..<Suc n],
           arrays := arrays s @ [[length (objs s) ..< length (objs s) + Suc n]],
           coins := (coins s)(toString c \<mapsto> length (arrays s)),
           spawnedCaches := insert (toString c) (spawnedCaches s)\<rparr>)"
    using assms(1) create_times_None [OF assms(2), of n]
    by (simp add: generatePopupContent_def n del: create_times.simps upt_Suc)
  have l: "getCoins c (generatePopupContent luck c s) = [length (objs s) ..< length (objs s) + Suc n]"
    by (simp add: g getCoins_def dispatchEvent_def)
  show "int (length (getCoins c (generatePopupContent luck c s))) = coinCount luck c"
    using n assms(3) by (simp add: l del: upt_Suc)
  have "map (\<lambda>a. serial (objs (generatePopupContent luck c s) ! a))
          [length (objs s) ..< length (objs s) + Suc n] = [0..<Suc n]"
    by (rule nth_equalityI) (simp_all add: g dispatchEvent_def nth_append newCoin_def del: upt_Suc)
  then show "map (\<lambda>a. serial (objs (generatePopupContent luck c s) ! a))
           (getCoins c (generatePopupContent luck c s)) =
         [0 ..< length (getCoins c (generatePopupContent luck c s))]"
    by (simp add: l del: upt_Suc)
qed

text \<open>
  C6. For every cell (i, j) that the spawn loop scans (in \<^verbatim>\<open>src/main.ts\<close> the cells with
  \<open>-8 \<le> i < 8\<close> and \<open>-8 \<le> j < 8\<close>), a cache is spawned at the cell if and only if
  \<^verbatim>\<open>luck([i, j].toString())\<close> is below \<^verbatim>\<open>CACHE_SPAWN_PROBABILITY\<close>, which is \<open>0.1\<close>.
  When the cache of a cell is generated for the first time (the cell is not in
  \<^verbatim>\<open>spawnedCaches\<close> and has no token list; \<^verbatim>\<open>luck\<close> is not negative, as its contract
  says), it gets \<open>\<lfloor>luck * 10\<rfloor> + 1\<close> coins with the serials 0, 1, ... in order. In
  particular, cell (0, 0) with luck \<open>0.05\<close> spawns a cache, and with \<open>0.37\<close> for the coin
  count the cache has exactly four coins, with serials 0 to 3.
\<close>

theorem spawn_rule_and_first_generation:
  "((ci, cj) \<in> set neighborhood \<longrightarrow>
      ((ci, cj) \<in> set (rects (spawnNeighborhood luck init_game)) \<longleftrightarrow>
       luck (show_int ci @ '','' @ show_int cj) < CACHE_SPAWN_PROBABILITY)) \<and>
   ((ci, cj) \<in> set (rects (spawnNeighborhood luck init_game)) \<longleftrightarrow>
      - NEIGHBORHOOD_SIZE \<le> ci \<and> ci < NEIGHBORHOOD_SIZE \<and>
      - NEIGHBORHOOD_SIZE \<le> cj \<and> cj < NEIGHBORHOOD_SIZE \<and>
      luck (show_int ci @ '','' @ show_int cj) < CACHE_SPAWN_PROBABILITY) \<and>
   CACHE_SPAWN_PROBABILITY = 0.1 \<and>
   (toString c \<notin> spawnedCaches s \<and> coins s (toString c) = None \<and>
    0 \<le> luck (show_int (cell_i c) @ '','' @ show_int (cell_j c) @ '',coinCount'') \<longrightarrow>
      int (length (getCoins c (generatePopupContent luck c s))) =
        \<lfloor>luck (show_int (cell_i c) @ '','' @ show_int (cell_j c) @ '',coinCount'') * 10\<rfloor> + 1 \<and>
      map (\<lambda>a. serial (objs (generatePopupContent luck c s) ! a))
          (getCoins c (generatePopupContent luck c s)) =
        [0 ..< length (getCoins c (generatePopupContent luck c s))]) \<and>
   (luck ''0,0'' = 0.05 \<longrightarrow> (0, 0) \<in> set (rects (spawnNeighborhood luck init_game))) \<and>
   (luck ''0,0,coinCount'' = 0.37 \<longrightarrow>
      map (\<lambda>a. serial (objs (generatePopupContent luck (Cell 0 0)
                                 (spawnNeighborhood luck init_game)) ! a))
          (getCoins (Cell 0 0) (generatePopupContent luck (Cell 0 0)
                                 (spawnNeighborhood luck init_game))) = [0, 1, 2, 3])"
proof (intro conjI impI)
  assume "(ci, cj) \<in> set neighborhood"
  then show "(ci, cj) \<in> set (rects (spawnNeighborhood luck init_game)) \<longleftrightarrow>
       luck (show_int ci @ '','' @ show_int cj) < CACHE_SPAWN_PROBABILITY"
    by (simp add: rects_spawnNeighborhood lucky_def)
next
  show "(ci, cj) \<in> set (rects (spawnNeighborhood luck init_game)) \<longleftrightarrow>
      - NEIGHBORHOOD_SIZE \<le> ci \<and> ci < NEIGHBORHOOD_SIZE \<and>
      - NEIGHBORHOOD_SIZE \<le> cj \<and> cj < NEIGHBORHOOD_SIZE \<and>
      luck (show_int ci @ '','' @ show_int cj) < CACHE_SPAWN_PROBABILITY"
    by (simp add: rects_spawnNeighborhood set_neighborhood lucky_def)
  show "CACHE_SPAWN_PROBABILITY = 0.1"
    by (simp add: CACHE_SPAWN_PROBABILITY_def)
next
  assume h: "toString c \<notin> spawnedCaches s \<and> coins s (toString c) = None \<and>
    0 \<le> luck (show_int (cell_i c) @ '','' @ show_int (cell_j c) @ '',coinCount'')"
  then have p: "0 \<le> coinCount luck c - 1"
    by (simp add: coinCount_def)
  from h p first_generation [of c s luck]
  show "int (length (getCoins c (generatePopupContent luck c s))) =
        \<lfloor>luck (show_int (cell_i c) @ '','' @ show_int (cell_j c) @ '',coinCount'') * 10\<rfloor> + 1"
    by (simp add: coinCount_def)
  from h p first_generation [of c s luck]
  show "map (\<lambda>a. serial (objs (generatePopupContent luck c s) ! a))
          (getCoins c (generatePopupContent luck c s)) =
        [0 ..< length (getCoins c (generatePopupContent luck c s))]"
    by simp
next
  assume "luck ''0,0'' = 0.05"
  then show "(0, 0) \<in> set (rects (spawnNeighborhood luck init_game))"
    by (simp add: rects_spawnNeighborhood set_neighborhood lucky_def NEIGHBORHOOD_SIZE_def
        CACHE_SPAWN_PROBABILITY_def show_int_def show_nat.simps digit_def)
next
  assume l: "luck ''0,0,coinCount'' = 0.37"
  let ?s0 = "spawnNeighborhood luck init_game"
  have k: "coinCount luck (Cell 0 0) = 4"
    by (simp add: coinCount_def show_int_def show_nat.simps digit_def l)
  have a: "toString (Cell 0 0) \<notin> spawnedCaches ?s0" and b: "coins ?s0 (toString (Cell 0 0)) = None"
    by (simp_all add: spawnNeighborhood_def spawnAll_fields init_game_def)
  have p: "0 \<le> coinCount luck (Cell 0 0) - 1" by (simp add: k)
  have "length (getCoins (Cell 0 0) (generatePopupContent luck (Cell 0 0) ?s0)) = 4"
    using first_generation(1) [OF a b p] by (simp add: k)
  moreover have "[0..<4] = [0, 1, 2, 3::nat]" by (simp add: upt_rec)
  ultimately show "map (\<lambda>a. serial (objs (generatePopupContent luck (Cell 0 0) ?s0) ! a))
          (getCoins (Cell 0 0) (generatePopupContent luck (Cell 0 0) ?s0)) = [0, 1, 2, 3]"
    using first_generation(2) [OF a b p] by simp
qed

theorem spawn_rule_and_first_generation_witness:
  "(0, 0) \<in> set neighborhood \<and>
   scenario_luck ''0,0'' = 0.05 \<and> scenario_luck ''0,0,coinCount'' = 0.37 \<and>
   toString (Cell 0 0) \<notin> spawnedCaches (spawnNeighborhood scenario_luck init_game) \<and>
   coins (spawnNeighborhood scenario_luck init_game) (toString (Cell 0 0)) = None \<and>
   (0, 0) \<in> set (rects (spawnNeighborhood scenario_luck init_game)) \<and>
   length (getCoins (Cell 0 0) scenario_start) = 4 \<and>
   map (\<lambda>a. serial (objs scenario_start ! a)) (getCoins (Cell 0 0) scenario_start) = [0, 1, 2, 3]"
proof -
  let ?s0 = "spawnNeighborhood scenario_luck init_game"
  have a: "scenario_luck ''0,0'' = 0.05" and b: "scenario_luck ''0,0,coinCount'' = 0.37"
    by (simp_all add: scenario_luck_def)
  have c: "toString (Cell 0 0) \<notin> spawnedCaches ?s0" and d: "coins ?s0 (toString (Cell 0 0)) = None"
    by (simp_all add: spawnNeighborhood_def spawnAll_fields init_game_def)
  have e: "0 \<le> scenario_luck (show_int (cell_i (Cell 0 0)) @ '','' @
                               show_int (cell_j (Cell 0 0)) @ '',coinCount'')"
    by (simp add: scenario_luck_def)
  have f: "\<lfloor>scenario_luck (show_int (cell_i (Cell 0 0)) @ '','' @
                             show_int (cell_j (Cell 0 0)) @ '',coinCount'') * 10\<rfloor> + 1 = 4"
    by (simp add: scenario_luck_def show_int_def show_nat.simps digit_def)
  note t = spawn_rule_and_first_generation [of 0 0 scenario_luck "Cell 0 0" ?s0]
  from t c d e f have "int (length (getCoins (Cell 0 0) scenario_start)) = 4"
    unfolding scenario_start_def by presburger
  then have g: "length (getCoins (Cell 0 0) scenario_start) = 4" by simp
  have n: "(0, 0) \<in> set neighborhood"
    by (simp add: set_neighborhood NEIGHBORHOOD_SIZE_def)
  from t a b c d g n show ?thesis
    unfolding scenario_start_def by blast
qed

subsection \<open>The ledger invariants hold in every reachable state\<close>

lemma growsD:
  "grows s s' \<Longrightarrow> coins s k = Some r \<Longrightarrow>
   coins s' k = Some r \<and> set (arrays s ! r) \<subseteq> set (arrays s' ! r) \<and>
   length (arrays s ! r) \<le> length (arrays s' ! r)"
  by (simp add: grows_def)

lemma grows_refl: "grows s s"
  by (simp add: grows_def)

lemma grows_trans: "grows s s' \<Longrightarrow> grows s' s'' \<Longrightarrow> grows s s''"
proof -
  assume a: "grows s s'" and b: "grows s' s''"
  show ?thesis
    unfolding grows_def
  proof (intro allI impI)
    fix k r assume "coins s k = Some r"
    with a have 1: "coins s' k = Some r" "set (arrays s ! r) \<subseteq> set (arrays s' ! r)"
      "length (arrays s ! r) \<le> length (arrays s' ! r)" by (simp_all add: grows_def)
    with b have 2: "coins s'' k = Some r" "set (arrays s' ! r) \<subseteq> set (arrays s'' ! r)"
      "length (arrays s' ! r) \<le> length (arrays s'' ! r)" by (simp_all add: grows_def)
    from 1 2 show "coins s'' k = Some r \<and> set (arrays s ! r) \<subseteq> set (arrays s'' ! r) \<and>
        length (arrays s ! r) \<le> length (arrays s'' ! r)" by auto
  qed
qed

lemma same_coins_refl: "same_coins s s"
  by (simp add: same_coins_def)

lemma same_coins_trans: "same_coins s s' \<Longrightarrow> same_coins s' s'' \<Longrightarrow> same_coins s s''"
  by (simp add: same_coins_def)

lemma cached_grows:
  "cached_inv s \<Longrightarrow> grows s s' \<Longrightarrow> length (objs s') = length (objs s) \<Longrightarrow> cached_inv s'"
proof -
  assume a: "cached_inv s" and b: "grows s s'" and c: "length (objs s') = length (objs s)"
  show ?thesis
    unfolding cached_inv_def
  proof (intro allI impI)
    fix x assume "x < length (objs s')"
    with a c obtain cl r where kr: "coins s (toString cl) = Some r" "x \<in> set (arrays s ! r)"
      by (auto simp: cached_inv_def)
    with b have "coins s' (toString cl) = Some r \<and> x \<in> set (arrays s' ! r)"
      by (auto simp: grows_def)
    then show "\<exists>c r. coins s' (toString c) = Some r \<and> x \<in> set (arrays s' ! r)" by blast
  qed
qed

lemma serial_grows:
  "serial_inv s \<Longrightarrow> grows s s' \<Longrightarrow> same_coins s s' \<Longrightarrow> serial_inv s'"
proof -
  assume a: "serial_inv s" and b: "grows s s'" and c: "same_coins s s'"
  show ?thesis
    unfolding serial_inv_def
  proof (intro allI impI)
    fix x cl
    assume x: "x < length (objs s')"
      and l: "latitude (objs s' ! x) = fst (toLatLng cl) \<and> longitude (objs s' ! x) = snd (toLatLng cl)"
    from x c have x0: "x < length (objs s)" by (simp add: same_coins_def)
    with c l have "latitude (objs s ! x) = fst (toLatLng cl) \<and> longitude (objs s ! x) = snd (toLatLng cl)"
      by (simp add: same_coins_def)
    with a x0 obtain r where r: "coins s (toString cl) = Some r" "serial (objs s ! x) < length (arrays s ! r)"
      unfolding serial_inv_def by blast
    from r(1) b have "coins s' (toString cl) = Some r" "length (arrays s ! r) \<le> length (arrays s' ! r)"
      by (simp_all add: grows_def)
    moreover from c x0 have "serial (objs s' ! x) = serial (objs s ! x)" by (simp add: same_coins_def)
    ultimately show "\<exists>r. coins s' (toString cl) = Some r \<and> serial (objs s' ! x) < length (arrays s' ! r)"
      using r(2) by auto
  qed
qed

lemma unique_same:
  "serial_unique s \<Longrightarrow> same_coins s s' \<Longrightarrow> serial_unique s'"
  unfolding serial_unique_def same_coins_def by simp

lemma pushCoin_grows: "refs_ok s \<Longrightarrow> grows s (pushCoin k a s)"
  by (auto simp: grows_def pushCoin_def refs_ok_def nth_append nth_list_update split: option.splits)

lemma pushCoin_refs: "refs_ok s \<Longrightarrow> refs_ok (pushCoin k a s)"
  by (auto simp: pushCoin_def refs_ok_def less_Suc_eq split: option.splits)

lemma pushCoin_has:
  "refs_ok s \<Longrightarrow>
   \<exists>r. coins (pushCoin k a s) k = Some r \<and> a \<in> set (arrays (pushCoin k a s) ! r) \<and>
       length (arrays (pushCoin k a s) ! r) =
         Suc (case coins s k of None \<Rightarrow> 0 | Some r0 \<Rightarrow> length (arrays s ! r0))"
  by (auto simp: pushCoin_def refs_ok_def split: option.splits)

lemmas inv_defs = refs_ok_def held_inv_def cached_inv_def serial_inv_def serial_unique_def

lemma toLatLng_inj:
  "fst (toLatLng c) = fst (toLatLng c') \<Longrightarrow> snd (toLatLng c) = snd (toLatLng c') \<Longrightarrow> c = c'"
  by (cases c; cases c') (simp add: toLatLng_def TILE_DEGREES_def)

lemma ledger_inv_irrelevant [simp]:
  "ledger_inv (s\<lparr>spawnedCaches := sc\<rparr>) = ledger_inv s"
  "ledger_inv (s\<lparr>alerts := al\<rparr>) = ledger_inv s"
  "ledger_inv (s\<lparr>events := ev\<rparr>) = ledger_inv s"
  "ledger_inv (s\<lparr>playerPoints := pp\<rparr>) = ledger_inv s"
  by (simp_all add: ledger_inv_def inv_defs)

lemma ledger_inv_dispatch [simp]: "ledger_inv (dispatchEvent e s) = ledger_inv s"
  by (simp add: dispatchEvent_def)

lemma ledger_inv_init: "ledger_inv (spawnNeighborhood luck init_game)"
  by (simp add: ledger_inv_def inv_defs spawnNeighborhood_def spawnAll_fields init_game_def)

lemma ledger_inv_create:
  assumes "ledger_inv s"
  shows "ledger_inv (snd (create c s))"
proof -
  define n where "n = (case coins s (toString c) of None \<Rightarrow> 0 | Some r \<Rightarrow> length (arrays s ! r))"
  define s0 where "s0 = s\<lparr>objs := objs s @ [newCoin c n]\<rparr>"
  define s' where "s' = pushCoin (toString c) (length (objs s)) s0"
  have s': "snd (create c s) = s'"
    by (simp add: create_def Let_def s'_def s0_def n_def)
  from assms have r: "refs_ok s" and h: "held_inv s" and ca: "cached_inv s"
    and se: "serial_inv s" and un: "serial_unique s"
    by (simp_all add: ledger_inv_def)
  have r0: "refs_ok s0" using r by (auto simp: refs_ok_def s0_def)
  have g: "grows s0 s'" unfolding s'_def using r0 by (rule pushCoin_grows)
  have c0: "coins s0 = coins s" "arrays s0 = arrays s" by (simp_all add: s0_def)
  have g': "grows s s'" using g by (simp add: grows_def c0)
  have o': "objs s' = objs s @ [newCoin c n]" "playerCoins s' = playerCoins s"
    by (simp_all add: s'_def s0_def pushCoin_fields)
  obtain r' where r': "coins s' (toString c) = Some r'" "length (objs s) \<in> set (arrays s' ! r')"
    "length (arrays s' ! r') = Suc n"
    using pushCoin_has [OF r0, of "toString c" "length (objs s)"]
    unfolding s'_def [symmetric] n_def c0 by blast
  have "refs_ok s'" unfolding s'_def using r0 by (rule pushCoin_refs)
  moreover have "held_inv s'"
    using h r by (auto simp: held_inv_def refs_ok_def o' nth_append newCoin_def less_Suc_eq)
  moreover have "cached_inv s'"
    unfolding cached_inv_def
  proof (intro allI impI)
    fix x assume "x < length (objs s')"
    then consider "x < length (objs s)" | "x = length (objs s)" by (auto simp: o' less_Suc_eq)
    then show "\<exists>c r. coins s' (toString c) = Some r \<and> x \<in> set (arrays s' ! r)"
    proof cases
      case 1
      with ca obtain cl r where kr: "coins s (toString cl) = Some r" "x \<in> set (arrays s ! r)"
        by (auto simp: cached_inv_def)
      from growsD [OF g' kr(1)] kr(2)
      have "coins s' (toString cl) = Some r \<and> x \<in> set (arrays s' ! r)"
        by auto
      then show ?thesis by blast
    next
      case 2
      with r' show ?thesis by blast
    qed
  qed
  moreover have "serial_inv s'"
    unfolding serial_inv_def
  proof (intro allI impI)
    fix x cl
    assume x: "x < length (objs s')"
      and l: "latitude (objs s' ! x) = fst (toLatLng cl) \<and> longitude (objs s' ! x) = snd (toLatLng cl)"
    from x consider "x < length (objs s)" | "x = length (objs s)" by (auto simp: o' less_Suc_eq)
    then show "\<exists>r. coins s' (toString cl) = Some r \<and> serial (objs s' ! x) < length (arrays s' ! r)"
    proof cases
      case 1
      with l have "latitude (objs s ! x) = fst (toLatLng cl) \<and> longitude (objs s ! x) = snd (toLatLng cl)"
        by (simp add: o' nth_append)
      with 1 se obtain r where kr: "coins s (toString cl) = Some r" "serial (objs s ! x) < length (arrays s ! r)"
        unfolding serial_inv_def by blast
      from growsD [OF g' kr(1)] kr(2) 1
      have "coins s' (toString cl) = Some r \<and> serial (objs s' ! x) < length (arrays s' ! r)"
        by (simp add: o' nth_append)
      then show ?thesis by blast
    next
      case 2
      with l have "cl = c" by (auto simp: o' newCoin_def intro: toLatLng_inj)
      with r' 2 show ?thesis by (simp add: o' newCoin_def)
    qed
  qed
  moreover have "serial_unique s'"
  proof -
    have new: "serial (objs s ! x) \<noteq> n"
      if "x < length (objs s)" "latitude (objs s ! x) = fst (toLatLng c)"
         "longitude (objs s ! x) = snd (toLatLng c)" for x
    proof -
      from that se obtain r where "coins s (toString c) = Some r" "serial (objs s ! x) < length (arrays s ! r)"
        unfolding serial_inv_def by blast
      then show ?thesis by (simp add: n_def)
    qed
    show ?thesis
      unfolding serial_unique_def
    proof (intro allI impI)
      fix x y
      assume x: "x < length (objs s')" and y: "y < length (objs s')"
        and d: "x \<noteq> y \<and> latitude (objs s' ! x) = latitude (objs s' ! y) \<and>
                longitude (objs s' ! x) = longitude (objs s' ! y)"
      from x y d consider "x < length (objs s)" "y < length (objs s)"
        | "x < length (objs s)" "y = length (objs s)"
        | "x = length (objs s)" "y < length (objs s)"
        by (auto simp: o' less_Suc_eq)
      then show "serial (objs s' ! x) \<noteq> serial (objs s' ! y)"
      proof cases
        case 1
        with un d show ?thesis by (simp add: serial_unique_def o' nth_append)
      next
        case 2
        with d new [of x] show ?thesis by (simp add: o' nth_append newCoin_def)
      next
        case 3
        with d new [of y] show ?thesis by (simp add: o' nth_append newCoin_def)
      qed
    qed
  qed
  ultimately show ?thesis by (simp add: s' ledger_inv_def)
qed

lemma ledger_inv_create_times: "ledger_inv s \<Longrightarrow> ledger_inv (create_times n c s)"
  by (induction n arbitrary: s) (simp_all add: ledger_inv_create)

lemma ledger_inv_popup: "ledger_inv s \<Longrightarrow> ledger_inv (generatePopupContent luck c s)"
  by (simp add: generatePopupContent_def ledger_inv_create_times)


lemma grows_same: "coins s' = coins s \<Longrightarrow> arrays s' = arrays s \<Longrightarrow> grows s s'"
  by (simp add: grows_def)

lemma same_coins_flag:
  "objs s' = (objs s)[a := (objs s ! a)\<lparr>collected := b\<rparr>] \<Longrightarrow> same_coins s s'"
proof -
  assume o: "objs s' = (objs s)[a := (objs s ! a)\<lparr>collected := b\<rparr>]"
  have "latitude (objs s' ! x) = latitude (objs s ! x) \<and>
        longitude (objs s' ! x) = longitude (objs s ! x) \<and>
        serial (objs s' ! x) = serial (objs s ! x)" if "x < length (objs s)" for x
    using that by (cases "x = a") (simp_all add: o)
  then show ?thesis by (simp add: same_coins_def o)
qed

lemma ledger_inv_step:
  assumes "ledger_inv s" and "refs_ok s'" and "held_inv s'" and "grows s s'" and "same_coins s s'"
  shows "ledger_inv s'"
  using assms cached_grows [of s s'] serial_grows [of s s'] unique_same [of s s']
  by (simp add: ledger_inv_def same_coins_def)

lemma ledger_inv_collect:
  assumes "ledger_inv s" and "a < length (objs s)"
  shows "ledger_inv (collect a s)"
proof (cases "collected (objs s ! a)")
  case True
  with assms show ?thesis by (simp add: collect_def)
next
  case False
  define s' where "s' = s\<lparr>objs := (objs s)[a := (objs s ! a)\<lparr>collected := True\<rparr>],
                playerCoins := playerCoins s @ [a], playerPoints := playerPoints s + 1\<rparr>"
  have c: "collect a s = dispatchEvent ''game-state-changed'' s'"
    using False by (simp add: collect_def s'_def)
  from assms have r: "refs_ok s" and h: "held_inv s" by (simp_all add: ledger_inv_def)
  have "refs_ok s'" using r assms(2) by (auto simp: refs_ok_def s'_def)
  moreover have "held_inv s'"
    using h False assms(2) by (auto simp: held_inv_def s'_def nth_list_update)
  moreover have "grows s s'" by (rule grows_same) (simp_all add: s'_def)
  moreover have "same_coins s s'" by (rule same_coins_flag [of _ _ a True]) (simp add: s'_def)
  ultimately have "ledger_inv s'" using assms(1) by (intro ledger_inv_step [of s s']) 
  then show ?thesis by (simp add: c)
qed

lemma remove1_append_grows:
  "set l \<subseteq> set (remove1 a l @ [a])" "length l \<le> length (remove1 a l @ [a])"
proof -
  show "set l \<subseteq> set (remove1 a l @ [a])"
  proof
    fix x assume "x \<in> set l"
    then show "x \<in> set (remove1 a l @ [a])" by (cases "x = a") simp_all
  qed
  show "length l \<le> length (remove1 a l @ [a])" by (simp add: length_remove1) arith
qed

lemma ledger_inv_deposit:
  assumes "ledger_inv s"
  shows "ledger_inv (snd (handleCoinDeposit c s))"
proof (cases "playerCoins s = []")
  case True
  with assms show ?thesis by (simp add: handleCoinDeposit_def)
next
  case False
  define a where "a = last (playerCoins s)"
  define s1 where "s1 = s\<lparr>playerCoins := butlast (playerCoins s),
                       objs := (objs s)[a := (objs s ! a)\<lparr>collected := False\<rparr>],
                       playerPoints := playerPoints s - 1\<rparr>"
  from assms have r: "refs_ok s" and h: "held_inv s" by (simp_all add: ledger_inv_def)
  have pc: "playerCoins s = butlast (playerCoins s) @ [a]"
    using False by (simp add: a_def)
  have al: "a < length (objs s)" using r False by (simp add: refs_ok_def a_def)
  have an: "a \<notin> set (butlast (playerCoins s))"
    using h pc by (metis distinct_append held_inv_def disjoint_iff list.set_intros(1))
  have r1: "refs_ok s1"
    using r by (auto simp: refs_ok_def s1_def dest: in_set_butlastD)
  have h1: "held_inv s1"
    unfolding held_inv_def
  proof (intro conjI allI impI)
    show "distinct (playerCoins s1)" using h by (simp add: s1_def held_inv_def distinct_butlast)
  next
    fix x assume "x < length (objs s1)"
    then have x: "x < length (objs s)" by (simp add: s1_def)
    show "collected (objs s1 ! x) \<longleftrightarrow> x \<in> set (playerCoins s1)"
    proof (cases "x = a")
      case True
      with an al show ?thesis by (simp add: s1_def)
    next
      case False
      from h x have "collected (objs s ! x) \<longleftrightarrow> x \<in> set (butlast (playerCoins s) @ [a])"
        using pc by (simp add: held_inv_def)
      with False show ?thesis by (simp add: s1_def)
    qed
  qed
  have g1: "grows s s1" by (rule grows_same) (simp_all add: s1_def)
  have sc1: "same_coins s s1" by (rule same_coins_flag [of _ _ a False]) (simp add: s1_def)
  show ?thesis
  proof (cases "coins s (toString c)")
    case None
    then have "snd (handleCoinDeposit c s) = s1"
      using False by (simp add: handleCoinDeposit_def Let_def removeCoin_def s1_def a_def)
    with assms r1 h1 g1 sc1 show ?thesis by (simp add: ledger_inv_step [of s s1])
  next
    case (Some r0)
    define s3 where "s3 = s1\<lparr>arrays := (arrays s)[r0 := remove1 a (arrays s ! r0) @ [a]]\<rparr>"
    have r0: "r0 < length (arrays s)" using r Some by (simp add: refs_ok_def)
    have "snd (handleCoinDeposit c s) = dispatchEvent ''game-state-changed'' s3"
      using False Some r0
      by (simp add: handleCoinDeposit_def Let_def removeCoin_def addCoinToCache_def pushCoin_def
          s1_def s3_def a_def remove1_idem)
    moreover have "refs_ok s3" using r1 by (simp add: refs_ok_def s3_def s1_def)
    moreover have "held_inv s3" using h1 by (simp add: held_inv_def s3_def)
    moreover have "grows s s3"
      unfolding grows_def
    proof (intro allI impI)
      fix k r' assume k: "coins s k = Some r'"
      have "set (arrays s ! r') \<subseteq> set (arrays s3 ! r') \<and>
            length (arrays s ! r') \<le> length (arrays s3 ! r')"
      proof (cases "r' = r0")
        case True
        with r0 remove1_append_grows [of "arrays s ! r0" a] show ?thesis
          by (simp add: s3_def)
      next
        case False
        then show ?thesis by (simp add: s3_def)
      qed
      with k show "coins s3 k = Some r' \<and> set (arrays s ! r') \<subseteq> set (arrays s3 ! r') \<and>
            length (arrays s ! r') \<le> length (arrays s3 ! r')"
        by (simp add: s3_def s1_def)
    qed
    moreover have "same_coins s s3" using sc1 by (simp add: same_coins_def s3_def)
    ultimately show ?thesis using assms by (simp add: ledger_inv_step [of s s3])
  qed
qed

lemma reachable_ledger_inv: "reachable luck s \<Longrightarrow> ledger_inv s"
  by (induction rule: reachable.induct)
     (simp_all add: ledger_inv_init ledger_inv_popup ledger_inv_create ledger_inv_collect
        ledger_inv_deposit)

lemma length_filter_flags:
  "length (filter P xs) + length (filter (\<lambda>x. \<not> P x) xs) = length xs"
  by (induction xs) simp_all

lemma held_count:
  assumes "held_inv s" and "refs_ok s"
  shows "length (filter collected (objs s)) = length (playerCoins s)"
proof -
  have "set (playerCoins s) = {i. i < length (objs s) \<and> collected (objs s ! i)}"
    using assms by (auto simp: held_inv_def refs_ok_def)
  then have "card {i. i < length (objs s) \<and> collected (objs s ! i)} = length (playerCoins s)"
    using assms(1) by (metis distinct_card held_inv_def)
  then show ?thesis by (simp add: length_filter_conv_card)
qed

lemma in_getCoins:
  "a \<in> set (getCoins c s) \<longleftrightarrow> (\<exists>r. coins s (toString c) = Some r \<and> a \<in> set (arrays s ! r))"
  by (cases "coins s (toString c)") (simp_all add: getCoins_def)

subsection \<open>C1: where a token is\<close>

text \<open>
  C1, as the code has it. In every reachable state the inventory holds each coin at most
  once and holds exactly the coins whose \<^verbatim>\<open>collected\<close> flag is set; every coin ever
  created is in the token list of some cell, whether collected or not, since nothing takes
  a collected coin out of its list. The number of uncollected coins plus the length of the
  inventory is the number of coins ever created.
\<close>

theorem tokens_by_flag:
  assumes "reachable luck s"
  shows "distinct (playerCoins s) \<and>
    (\<forall>a \<in> set (playerCoins s). a < length (objs s)) \<and>
    (\<forall>a < length (objs s).
        (a \<in> set (playerCoins s) \<longleftrightarrow> collected (objs s ! a)) \<and>
        (\<exists>c. a \<in> set (getCoins c s))) \<and>
    length (filter (\<lambda>g. \<not> collected g) (objs s)) + length (playerCoins s) = length (objs s)"
proof -
  from assms have i: "ledger_inv s" by (rule reachable_ledger_inv)
  then have r: "refs_ok s" and h: "held_inv s" and c: "cached_inv s"
    by (simp_all add: ledger_inv_def)
  have "length (filter (\<lambda>g. \<not> collected g) (objs s)) + length (playerCoins s) = length (objs s)"
    using held_count [OF h r] length_filter_flags [of collected "objs s"] by simp
  moreover have "\<exists>c. a \<in> set (getCoins c s)" if "a < length (objs s)" for a
    using c that unfolding cached_inv_def in_getCoins by blast
  ultimately show ?thesis
    using r h by (simp add: refs_ok_def held_inv_def)
qed

theorem tokens_by_flag_witness:
  "reachable scenario_luck (collect 0 scenario_start) \<and>
   0 \<in> set (playerCoins (collect 0 scenario_start)) \<and>
   collected (objs (collect 0 scenario_start) ! 0) \<and>
   (\<exists>c. 0 \<in> set (getCoins c (collect 0 scenario_start))) \<and>
   length (filter (\<lambda>g. \<not> collected g) (objs (collect 0 scenario_start))) = 3 \<and>
   length (playerCoins (collect 0 scenario_start)) = 1 \<and>
   length (objs (collect 0 scenario_start)) = 4"
proof -
  have l: "0 < length (objs (collect 0 scenario_start))"
    "length (playerCoins (collect 0 scenario_start)) = 1"
    "length (objs (collect 0 scenario_start)) = 4"
    "0 \<in> set (playerCoins (collect 0 scenario_start))"
    by (simp_all add: scenario_collect_eq)
  from tokens_by_flag [OF scenario_collect_reachable] l scenario_collect_reachable
  show ?thesis by auto
qed

text \<open>
  The claim as written has each token in a cache list or in the inventory, never in both,
  and the lengths of all lists and of the inventory add up to the number of tokens created.
  After the first collect of the scenario coin 0 is in the list of cell (0, 0) and in the
  inventory, and the lengths add up to 5 for 4 coins.
\<close>

theorem collected_coin_in_cache_and_inventory:
  "0 \<in> set (getCoins (Cell 0 0) (collect 0 scenario_start)) \<and>
   0 \<in> set (playerCoins (collect 0 scenario_start)) \<and>
   length (concat (arrays (collect 0 scenario_start))) +
     length (playerCoins (collect 0 scenario_start)) = 5 \<and>
   length (objs (collect 0 scenario_start)) = 4"
  by (simp add: scenario_collect_eq getCoins_def toString_origin)

subsection \<open>C3: serial numbers\<close>

text \<open>
  C3, as the code has it. \<^verbatim>\<open>create\<close> gives the new coin the present length of the
  cell's token list as its serial; there is no counter of the coins ever created. In every
  state reached by creations, popups, collects and deposits, two different coins with the
  same origin (the same latitude and longitude) have different serials, because none of
  these operations makes a list shorter.
\<close>

theorem serial_is_list_length:
  "fst (create c s) = length (objs s) \<and>
   objs (snd (create c s)) = objs s @ [newCoin c (length (getCoins c s))] \<and>
   serial (objs (snd (create c s)) ! fst (create c s)) = length (getCoins c s) \<and>
   (reachable luck s' \<longrightarrow>
      (\<forall>a < length (objs s'). \<forall>b < length (objs s').
         a \<noteq> b \<and> latitude (objs s' ! a) = latitude (objs s' ! b) \<and>
         longitude (objs s' ! a) = longitude (objs s' ! b) \<longrightarrow>
         serial (objs s' ! a) \<noteq> serial (objs s' ! b)))"
proof -
  have o: "objs (snd (create c s)) = objs s @ [newCoin c (length (getCoins c s))]"
    by (simp add: create_def Let_def pushCoin_fields getCoins_def split: option.splits)
  have "serial_unique s'" if "reachable luck s'"
    using reachable_ledger_inv [OF that] by (simp add: ledger_inv_def)
  then show ?thesis
    unfolding serial_unique_def by (simp add: o) (simp add: create_def Let_def newCoin_def)
qed

theorem serial_is_list_length_witness:
  "reachable scenario_luck scenario_start \<and>
   length (getCoins (Cell 0 0) scenario_start) = 4 \<and>
   serial (objs (snd (create (Cell 0 0) scenario_start)) ! fst (create (Cell 0 0) scenario_start)) = 4 \<and>
   serial (objs scenario_start ! 0) \<noteq> serial (objs scenario_start ! 1)"
proof -
  have l: "length (getCoins (Cell 0 0) scenario_start) = 4" "0 < length (objs scenario_start)"
    "1 < length (objs scenario_start)"
    "latitude (objs scenario_start ! 0) = latitude (objs scenario_start ! 1)"
    "longitude (objs scenario_start ! 0) = longitude (objs scenario_start ! 1)"
    by (simp_all add: scenario_start_eq getCoins_def toString_origin newCoin_def)
  from serial_is_list_length [of "Cell 0 0" scenario_start scenario_luck scenario_start]
    scenario_start_reachable l
  show ?thesis by auto
qed

text \<open>
  The claim as written has the serial count the coins ever created for the cell, so that
  a serial is never issued twice. After two creations for cell (0, 0), a \<^verbatim>\<open>removeCoin\<close>
  of the first coin and a third creation, the second and the third coin both have serial 1.
  And after a coin of cell (0, 0) was deposited at cell (0, 1), the second coin created for
  cell (0, 1) gets serial 2, although one coin had been created for that cell before.
\<close>

theorem reissued_serial:
  "map serial (objs reissue_state) = [0, 1, 1] \<and>
   map latitude (objs reissue_state) = replicate 3 (fst (toLatLng (Cell 0 0))) \<and>
   map longitude (objs reissue_state) = replicate 3 (snd (toLatLng (Cell 0 0))) \<and>
   getCoins (Cell 0 0) reissue_state = [1, 2] \<and>
   map serial (objs foreign_deposit_state) = [0, 0, 2] \<and>
   map longitude (objs foreign_deposit_state) =
     [snd (toLatLng (Cell 0 0)), snd (toLatLng (Cell 0 1)), snd (toLatLng (Cell 0 1))] \<and>
   getCoins (Cell 0 1) foreign_deposit_state = [1, 0, 2]"
proof -
  have k: "toString (Cell 0 1) = ''0:1''"
    by (simp add: toString_def show_int_def show_nat.simps digit_def)
  have "map serial (objs reissue_state) = [0, 1, 1] \<and>
   map latitude (objs reissue_state) = replicate 3 (fst (toLatLng (Cell 0 0))) \<and>
   map longitude (objs reissue_state) = replicate 3 (snd (toLatLng (Cell 0 0))) \<and>
   getCoins (Cell 0 0) reissue_state = [1, 2]"
    by (simp add: reissue_state_def create_def Let_def pushCoin_def removeCoin_def init_game_def
        toString_origin newCoin_def getCoins_def eval_nat_numeral)
  moreover have "map serial (objs foreign_deposit_state) = [0, 0, 2] \<and>
   map longitude (objs foreign_deposit_state) =
     [snd (toLatLng (Cell 0 0)), snd (toLatLng (Cell 0 1)), snd (toLatLng (Cell 0 1))] \<and>
   getCoins (Cell 0 1) foreign_deposit_state = [1, 0, 2]"
    by (simp add: foreign_deposit_state_def create_def Let_def pushCoin_def removeCoin_def
        handleCoinDeposit_def addCoinToCache_def collect_def dispatchEvent_def init_game_def
        toString_origin k newCoin_def getCoins_def)
  ultimately show ?thesis by blast
qed

subsection \<open>C4: a snapshot and its restoration\<close>

text \<open>
  C4, as the code has it. \<^verbatim>\<open>saveCacheState\<close> copies the array of coin references, not the
  coins. After a collect, \<^verbatim>\<open>restoreCacheState\<close> installs a list equal to the list at the
  capture: the same coins in the same order, each with its latitude, longitude and serial.
  The \<^verbatim>\<open>collected\<close> flag is the present one: the collected coin is in the restored list
  with its flag set, the flags of the other coins are as they were.
\<close>

theorem snapshot_round_trip:
  "a < length (objs s) \<Longrightarrow>
   getCoins c (restoreCacheState c (collect a (saveCacheState c s))) = getCoins c s \<and>
   length (objs (restoreCacheState c (collect a (saveCacheState c s)))) = length (objs s) \<and>
   (\<forall>b < length (objs s).
      latitude (objs (restoreCacheState c (collect a (saveCacheState c s))) ! b) = latitude (objs s ! b) \<and>
      longitude (objs (restoreCacheState c (collect a (saveCacheState c s))) ! b) = longitude (objs s ! b) \<and>
      serial (objs (restoreCacheState c (collect a (saveCacheState c s))) ! b) = serial (objs s ! b) \<and>
      (b \<noteq> a \<longrightarrow>
        collected (objs (restoreCacheState c (collect a (saveCacheState c s))) ! b) =
        collected (objs s ! b))) \<and>
   collected (objs (restoreCacheState c (collect a (saveCacheState c s))) ! a)"
proof -
  assume a: "a < length (objs s)"
  define s1 where "s1 = saveCacheState c s"
  define s2 where "s2 = collect a s1"
  define s3 where "s3 = restoreCacheState c s2"
  have m: "cacheStateMemento s2 (toString c) = Some (toString c, length (arrays s))"
    and ar: "arrays s2 = arrays s @ [getCoins c s]"
    by (simp_all add: s2_def s1_def collect_def dispatchEvent_def saveCacheState_def)
  have o2: "objs s2 = (if collected (objs s ! a) then objs s
                       else (objs s)[a := (objs s ! a)\<lparr>collected := True\<rparr>])"
    by (simp add: s2_def s1_def collect_def dispatchEvent_def saveCacheState_def)
  have o3: "objs s3 = objs s2" and g: "getCoins c s3 = getCoins c s"
    by (simp_all add: s3_def restoreCacheState_def m ar getCoins_def)
  have "latitude (objs s3 ! b) = latitude (objs s ! b) \<and>
        longitude (objs s3 ! b) = longitude (objs s ! b) \<and>
        serial (objs s3 ! b) = serial (objs s ! b) \<and>
        (b \<noteq> a \<longrightarrow> collected (objs s3 ! b) = collected (objs s ! b))"
    if "b < length (objs s)" for b
    using that by (cases "b = a") (simp_all add: o3 o2)
  moreover have "collected (objs s3 ! a)" using a by (simp add: o3 o2)
  moreover have "length (objs s3) = length (objs s)" by (simp add: o3 o2)
  ultimately show ?thesis using g unfolding s3_def s2_def s1_def by blast
qed

theorem snapshot_round_trip_witness:
  "0 < length (objs scenario_start) \<and>
   getCoins (Cell 0 0)
     (restoreCacheState (Cell 0 0) (collect 0 (saveCacheState (Cell 0 0) scenario_start))) = [0, 1, 2, 3] \<and>
   getCoins (Cell 0 0) scenario_start = [0, 1, 2, 3]"
proof -
  have h: "0 < length (objs scenario_start)" by (simp add: scenario_start_eq)
  have g: "getCoins (Cell 0 0) scenario_start = [0, 1, 2, 3]"
    by (simp add: scenario_start_eq getCoins_def toString_origin)
  from snapshot_round_trip [OF h, of "Cell 0 0"] h g show ?thesis by simp
qed

text \<open>
  The claim as written has the restored tokens carry the attribute values of the moment of
  capture. Coin 0 is uncollected when the snapshot of cell (0, 0) is taken; in the restored
  list it is collected.
\<close>

theorem snapshot_shares_coin_objects:
  "getCoins (Cell 0 0) (saveCacheState (Cell 0 0) scenario_start) = [0, 1, 2, 3] \<and>
   \<not> collected (objs (saveCacheState (Cell 0 0) scenario_start) ! 0) \<and>
   getCoins (Cell 0 0)
     (restoreCacheState (Cell 0 0) (collect 0 (saveCacheState (Cell 0 0) scenario_start))) = [0, 1, 2, 3] \<and>
   collected (objs (restoreCacheState (Cell 0 0)
                     (collect 0 (saveCacheState (Cell 0 0) scenario_start))) ! 0)"
  by (simp add: scenario_start_eq saveCacheState_def collect_def dispatchEvent_def
      restoreCacheState_def getCoins_def toString_origin newCoin_def init_game_def)

subsection \<open>C10: a direction that is not one of the four\<close>

lemma movement_unknown:
  "direction \<notin> {''north'', ''south'', ''east'', ''west''} \<Longrightarrow>
   direction \<notin> set objectPrototypeNames \<Longrightarrow> movement pos direction = None"
  by (simp add: movement_def)

text \<open>
  C10, as the code has it. For every direction string that is neither one of \<^verbatim>\<open>north\<close>,
  \<^verbatim>\<open>south\<close>, \<^verbatim>\<open>east\<close>, \<^verbatim>\<open>west\<close> nor the name of a property that the object literal
  \<^verbatim>\<open>movement\<close> inherits from \<^verbatim>\<open>Object.prototype\<close>, both versions of \<^verbatim>\<open>movePlayer\<close>
  return normally and change nothing: the player position and the movement history are
  what they were, and so is the rest of the state.
\<close>

theorem movePlayer_unrecognized:
  "direction \<notin> {''north'', ''south'', ''east'', ''west''} \<Longrightarrow>
   direction \<notin> set objectPrototypeNames \<Longrightarrow>
   movePlayer luck direction s = (Returned, s) \<and>
   movePlayer_main direction s = (Returned, s) \<and>
   playerPosition (snd (movePlayer luck direction s)) = playerPosition s \<and>
   playerMovementHistory (snd (movePlayer luck direction s)) = playerMovementHistory s \<and>
   playerPosition (snd (movePlayer_main direction s)) = playerPosition s"
  by (simp add: movePlayer_def movePlayer_main_def movement_unknown)

theorem movePlayer_unrecognized_witness:
  "''up'' \<notin> {''north'', ''south'', ''east'', ''west''} \<and>
   ''up'' \<notin> set objectPrototypeNames \<and>
   movePlayer scenario_luck ''up'' init_game = (Returned, init_game) \<and>
   movePlayer_main ''up'' init_game = (Returned, init_game) \<and>
   playerPosition (snd (movePlayer scenario_luck ''up'' init_game)) = playerPosition init_game \<and>
   playerMovementHistory (snd (movePlayer scenario_luck ''up'' init_game)) = []"
proof -
  have a: "''up'' \<notin> {''north'', ''south'', ''east'', ''west''}" by simp
  have b: "''up'' \<notin> set objectPrototypeNames" by (simp add: objectPrototypeNames_def)
  have h: "playerMovementHistory init_game = []" by (simp add: init_game_def)
  from movePlayer_unrecognized [OF a b, of scenario_luck init_game] a b h
  show ?thesis by simp
qed

text \<open>
  The claim as written is about every string other than the four directions. The string
  \<^verbatim>\<open>toString\<close> is not one of the four, yet \<^verbatim>\<open>movement["toString"]\<close> is the inherited
  function and passes the test \<^verbatim>\<open>if (movement[direction])\<close>: called with it, both versions
  assign it to \<^verbatim>\<open>playerPosition\<close>, which is no longer the position the player had. (The
  movement history is not touched, since the marker throws before it is reached.) The
  program's own call sites pass the four directions only.
\<close>

theorem movePlayer_inherited_property:
  "''toString'' \<notin> {''north'', ''south'', ''east'', ''west''} \<and>
   playerPosition init_game = LatLng (fst OAKES_CLASSROOM) (snd OAKES_CLASSROOM) \<and>
   playerPosition (snd (movePlayer_main ''toString'' init_game)) = Inherited ''toString'' \<and>
   playerPosition (snd (movePlayer scenario_luck ''toString'' init_game)) = Inherited ''toString'' \<and>
   playerMovementHistory (snd (movePlayer scenario_luck ''toString'' init_game)) = []"
  by (simp add: movePlayer_def movePlayer_main_def movement_def objectPrototypeNames_def init_game_def)

subsection \<open>The key of a cell determines the cell\<close>

lemma digit_inj: "m < 10 \<Longrightarrow> n < 10 \<Longrightarrow> digit m = digit n \<Longrightarrow> m = n"
proof -
  have d: "distinct ''0123456789''" by simp
  assume "m < 10" "n < 10" "digit m = digit n"
  then show "m = n"
    using nth_eq_iff_index_eq [OF d, of m n] by (simp add: digit_def)
qed

lemma digit_in: "n < 10 \<Longrightarrow> digit n \<in> set ''0123456789''"
  unfolding digit_def by (rule nth_mem) simp

lemma show_nat_nonempty: "show_nat n \<noteq> []"
  by (subst show_nat.simps) simp

lemma show_nat_digits: "set (show_nat n) \<subseteq> set ''0123456789''"
proof (induction n rule: show_nat.induct)
  case (1 n)
  show ?case
  proof (cases "n < 10")
    case True
    then show ?thesis using digit_in [of n] by (subst show_nat.simps) simp
  next
    case False
    have "n mod 10 < 10" by simp
    from digit_in [OF this] "1.IH" [OF False] False
    show ?thesis by (subst show_nat.simps) simp
  qed
qed

lemma show_nat_inj: "show_nat m = show_nat n \<Longrightarrow> m = n"
proof (induction m arbitrary: n rule: show_nat.induct)
  case (1 m)
  have mm: "m mod 10 < 10" and nm: "n mod 10 < 10" by simp_all
  show ?case
  proof (cases "m < 10")
    case True
    show ?thesis
    proof (cases "n < 10")
      case n: True
      with True "1.prems" show ?thesis
        by (simp add: show_nat.simps [of m] show_nat.simps [of n] digit_inj)
    next
      case n: False
      with True "1.prems" show_nat_nonempty [of "n div 10"] show ?thesis
        by (simp add: show_nat.simps [of m] show_nat.simps [of n])
    qed
  next
    case False
    show ?thesis
    proof (cases "n < 10")
      case n: True
      with False "1.prems" show_nat_nonempty [of "m div 10"] show ?thesis
        by (simp add: show_nat.simps [of m] show_nat.simps [of n])
    next
      case n: False
      with False "1.prems" have e: "show_nat (m div 10) = show_nat (n div 10)"
        and d: "digit (m mod 10) = digit (n mod 10)"
        by (simp_all add: show_nat.simps [of m] show_nat.simps [of n])
      from "1.IH" [OF False e] have "m div 10 = n div 10" .
      moreover from digit_inj [OF mm nm d] have "m mod 10 = n mod 10" .
      ultimately show ?thesis by (metis div_mult_mod_eq)
    qed
  qed
qed

lemma show_int_chars: "CHR '':'' \<notin> set (show_int k)"
  using show_nat_digits [of "nat k"] show_nat_digits [of "nat (- k)"]
  by (auto simp: show_int_def)

lemma show_int_inj: "show_int k = show_int l \<Longrightarrow> k = l"
proof -
  assume e: "show_int k = show_int l"
  have neg: "hd (show_int x) = CHR ''-''" if "x < 0" for x
    using that by (simp add: show_int_def)
  have pos: "hd (show_int x) \<noteq> CHR ''-''" if "\<not> x < 0" for x
  proof -
    have "hd (show_nat (nat x)) \<in> set (show_nat (nat x))"
      using show_nat_nonempty by (rule hd_in_set)
    with show_nat_digits [of "nat x"] that show ?thesis
      by (auto simp: show_int_def)
  qed
  show "k = l"
  proof (cases "k < 0")
    case True
    with e neg [of k] pos [of l] have l: "l < 0" by auto
    with True e have "show_nat (nat (- k)) = show_nat (nat (- l))" by (simp add: show_int_def)
    then have "nat (- k) = nat (- l)" by (rule show_nat_inj)
    with True l show ?thesis by simp
  next
    case False
    with e neg [of l] pos [of k] have l: "\<not> l < 0" by auto
    with False e have "show_nat (nat k) = show_nat (nat l)" by (simp add: show_int_def)
    then have "nat k = nat l" by (rule show_nat_inj)
    with False l show ?thesis by simp
  qed
qed

lemma toString_inj: "toString c = toString c' \<Longrightarrow> c = c'"
proof -
  assume "toString c = toString c'"
  then have "show_int (cell_i c) @ CHR '':'' # show_int (cell_j c) =
             show_int (cell_i c') @ CHR '':'' # show_int (cell_j c')"
    by (simp add: toString_def)
  then have "show_int (cell_i c) = show_int (cell_i c') \<and> show_int (cell_j c) = show_int (cell_j c')"
    using append_Cons_eq_iff [OF show_int_chars show_int_chars] by blast
  then show ?thesis by (simp add: show_int_inj cell.expand)
qed

subsection \<open>Scanning a neighbourhood in which one cell matters\<close>

lemma visitAll_append: "visitAll luck (ps @ qs) s = visitAll luck qs (visitAll luck ps s)"
  by (induction ps arbitrary: s) simp_all

lemma visitAll_idle:
  "(\<forall>p \<in> set ps. cacheStateMemento s (toString (createCell (fst p) (snd p))) = None \<and>
       \<not> lucky luck p) \<Longrightarrow> visitAll luck ps s = s"
  by (induction ps) (simp_all add: visit_def Let_def)

lemma createCell_key_inj:
  "toString (createCell (fst p) (snd p)) = toString (createCell (fst q) (snd q)) \<Longrightarrow> p = q"
  by (auto dest!: toString_inj simp: createCell_def prod_eq_iff)

lemma visitAll_one:
  assumes d: "distinct ps" and m: "p0 \<in> set ps"
    and u: "\<forall>p \<in> set ps. p \<noteq> p0 \<longrightarrow> \<not> lucky luck p"
    and k: "dom (cacheStateMemento s) \<subseteq> {toString (createCell (fst p0) (snd p0))}"
    and k': "dom (cacheStateMemento (visit luck p0 s)) \<subseteq> {toString (createCell (fst p0) (snd p0))}"
  shows "visitAll luck ps s = visit luck p0 s"
proof -
  from m obtain pre post where ps: "ps = pre @ p0 # post" by (auto dest: split_list)
  with d have n: "p0 \<notin> set pre" "p0 \<notin> set post" by auto
  have idle: "cacheStateMemento s' (toString (createCell (fst p) (snd p))) = None \<and> \<not> lucky luck p"
    if "p \<in> set ps" "p \<noteq> p0"
      "dom (cacheStateMemento s') \<subseteq> {toString (createCell (fst p0) (snd p0))}"
    for p and s' :: game
  proof -
    from that(2) have "toString (createCell (fst p) (snd p)) \<noteq> toString (createCell (fst p0) (snd p0))"
      using createCell_key_inj by blast
    with that(3) have "cacheStateMemento s' (toString (createCell (fst p) (snd p))) = None"
      by (metis domIff singletonD subsetD)
    with u that(1,2) show ?thesis by simp
  qed
  have 1: "visitAll luck pre s = s"
    by (rule visitAll_idle) (use idle [OF _ _ k] n ps in auto)
  have 2: "visitAll luck post (visit luck p0 s) = visit luck p0 s"
    by (rule visitAll_idle) (use idle [OF _ _ k'] n ps in auto)
  show ?thesis
    by (simp only: ps visitAll_append visitAll.simps 1 2)
qed

lemma around_product:
  "around a b = List.product [a - NEIGHBORHOOD_SIZE .. a + NEIGHBORHOOD_SIZE]
                             [b - NEIGHBORHOOD_SIZE .. b + NEIGHBORHOOD_SIZE]"
  by (simp add: around_def product_concat_map)

lemma distinct_around: "distinct (around a b)"
  by (simp add: around_product distinct_product)

lemma show_int_no_comma: "CHR '','' \<notin> set (show_int k)"
  using show_nat_digits [of "nat k"] show_nat_digits [of "nat (- k)"]
  by (auto simp: show_int_def)

lemma lucky_scenario: "lucky scenario_luck p \<longleftrightarrow> p = (0, 0)"
proof -
  have z: "show_int 0 = ''0''" by (simp add: show_int_def show_nat.simps digit_def)
  have "show_int (fst p) @ '','' @ show_int (snd p) = ''0,0'' \<longleftrightarrow> p = (0, 0)"
  proof
    assume "show_int (fst p) @ '','' @ show_int (snd p) = ''0,0''"
    then have "show_int (fst p) @ CHR '','' # show_int (snd p) = show_int 0 @ CHR '','' # show_int 0"
      by (simp add: z)
    then have "show_int (fst p) = show_int 0 \<and> show_int (snd p) = show_int 0"
      using append_Cons_eq_iff [OF show_int_no_comma show_int_no_comma] by blast
    then show "p = (0, 0)" by (auto dest!: show_int_inj simp: prod_eq_iff)
  next
    assume "p = (0, 0)"
    then show "show_int (fst p) @ '','' @ show_int (snd p) = ''0,0''" by (simp add: z)
  qed
  then show ?thesis
    by (simp add: lucky_def scenario_luck_def CACHE_SPAWN_PROBABILITY_def)
qed

subsection \<open>C9: resetting the game\<close>

lemma origin_in_around: "(0, 0) \<in> set (around 0 0)" "(0, 0) \<in> set (around 1 0)"
  by (simp_all add: around_product NEIGHBORHOOD_SIZE_def)

lemma origin_key: "toString (createCell 0 0) = ''0:0''"
  by (simp add: createCell_def toString_origin)

lemma first_scan:
  "spawnRelativeCache scenario_luck init_game =
     init_game\<lparr>arrays := [[]], rects := [(0, 0)],
       cacheStateMemento := [''0:0'' \<mapsto> (''0:0'', 0)]\<rparr>"
proof -
  define s0 where "s0 = init_game\<lparr>spawnedCaches := {}\<rparr>"
  have v: "visit scenario_luck (0, 0) s0 =
      init_game\<lparr>arrays := [[]], rects := [(0, 0)],
       cacheStateMemento := [''0:0'' \<mapsto> (''0:0'', 0)]\<rparr>"
    by (simp add: visit_def s0_def lucky_scenario createCell_def toString_origin saveCacheState_def
        spawnCache_def getCoins_def init_game_def)
  have "visitAll scenario_luck (around 0 0) s0 = visit scenario_luck (0, 0) s0"
  proof (rule visitAll_one)
    show "distinct (around 0 0)" by (rule distinct_around)
    show "(0, 0) \<in> set (around 0 0)" by (rule origin_in_around)
    show "\<forall>p \<in> set (around 0 0). p \<noteq> (0, 0) \<longrightarrow> \<not> lucky scenario_luck p"
      by (simp add: lucky_scenario)
    show "dom (cacheStateMemento s0) \<subseteq> {toString (createCell (fst (0, 0)) (snd (0, 0)))}"
      by (simp add: s0_def init_game_def)
    show "dom (cacheStateMemento (visit scenario_luck (0, 0) s0))
            \<subseteq> {toString (createCell (fst (0, 0)) (snd (0, 0)))}"
      by (simp add: v origin_key)
  qed
  moreover have "js_round ((fst OAKES_CLASSROOM - fst OAKES_CLASSROOM) / TILE_DEGREES) = 0"
    "js_round ((snd OAKES_CLASSROOM - snd OAKES_CLASSROOM) / TILE_DEGREES) = 0"
    by (simp_all add: js_round_def)
  moreover have "playerPosition init_game = LatLng (fst OAKES_CLASSROOM) (snd OAKES_CLASSROOM)"
    by (simp add: init_game_def)
  ultimately show ?thesis
    by (simp add: spawnRelativeCache_def v s0_def [symmetric])
qed

lemma second_scan:
  assumes "cacheStateMemento s = [''0:0'' \<mapsto> (''0:0'', r)]"
    and "playerPosition s = LatLng (fst OAKES_CLASSROOM + TILE_DEGREES) (snd OAKES_CLASSROOM)"
  shows "spawnRelativeCache scenario_luck s =
         s\<lparr>coins := (coins s)(''0:0'' \<mapsto> r), spawnedCaches := {''0:0''}\<rparr>"
proof -
  define s0 where "s0 = s\<lparr>spawnedCaches := {}\<rparr>"
  have v: "visit scenario_luck (0, 0) s0 =
      s\<lparr>coins := (coins s)(''0:0'' \<mapsto> r), spawnedCaches := {''0:0''}\<rparr>"
    by (simp add: visit_def s0_def createCell_def toString_origin restoreCacheState_def assms(1))
  have "visitAll scenario_luck (around 1 0) s0 = visit scenario_luck (0, 0) s0"
  proof (rule visitAll_one)
    show "distinct (around 1 0)" by (rule distinct_around)
    show "(0, 0) \<in> set (around 1 0)" by (rule origin_in_around)
    show "\<forall>p \<in> set (around 1 0). p \<noteq> (0, 0) \<longrightarrow> \<not> lucky scenario_luck p"
      by (simp add: lucky_scenario)
    show "dom (cacheStateMemento s0) \<subseteq> {toString (createCell (fst (0, 0)) (snd (0, 0)))}"
      by (simp add: s0_def assms(1) origin_key)
    show "dom (cacheStateMemento (visit scenario_luck (0, 0) s0))
            \<subseteq> {toString (createCell (fst (0, 0)) (snd (0, 0)))}"
      by (simp add: v assms(1) origin_key)
  qed
  moreover have "js_round ((fst OAKES_CLASSROOM + TILE_DEGREES - fst OAKES_CLASSROOM) / TILE_DEGREES) = 1"
    "js_round ((snd OAKES_CLASSROOM - snd OAKES_CLASSROOM) / TILE_DEGREES) = 0"
    by (simp_all add: js_round_def TILE_DEGREES_def)
  ultimately show ?thesis
    by (simp add: spawnRelativeCache_def assms(2) v s0_def [symmetric])
qed

lemma reset_scenario_eq:
  "reset_scenario =
     init_game\<lparr>objs := (newCoin (Cell 0 0) 0)\<lparr>collected := True\<rparr> #
                       map (newCoin (Cell 0 0)) [1, 2, 3],
       arrays := [[], [0, 1, 2, 3]], coins := [''0:0'' \<mapsto> 0],
       playerCoins := [0], playerPoints := 1, spawnedCaches := {''0:0''},
       rects := [(0, 0)],
       events := [''game-state-changed'', ''game-state-changed''],
       playerPosition := LatLng (fst OAKES_CLASSROOM + TILE_DEGREES) (snd OAKES_CLASSROOM),
       playerMovementHistory :=
         [LatLng (fst OAKES_CLASSROOM + TILE_DEGREES) (snd OAKES_CLASSROOM)],
       cacheStateMemento := [''0:0'' \<mapsto> (''0:0'', 0)]\<rparr>"
proof -
  define s0 where "s0 = spawnRelativeCache scenario_luck init_game"
  have s0: "s0 = init_game\<lparr>arrays := [[]], rects := [(0, 0)],
                  cacheStateMemento := [''0:0'' \<mapsto> (''0:0'', 0)]\<rparr>"
    unfolding s0_def by (rule first_scan)
  have n: "coins s0 (toString (Cell 0 0)) = None"
    by (simp add: s0 init_game_def)
  have "create_times (Suc 3) (Cell 0 0) s0 =
     s0\<lparr>objs := objs s0 @ map (newCoin (Cell 0 0)) [0..<Suc 3],
      arrays := arrays s0 @ [[length (objs s0) ..< length (objs s0) + Suc 3]],
      coins := (coins s0)(toString (Cell 0 0) \<mapsto> length (arrays s0))\<rparr>"
    using n by (rule create_times_None)
  moreover have "nat 4 = Suc 3" by simp
  moreover have "[0..<Suc 3] = [0, 1, 2, 3]" by (simp add: upt_conv_Cons)
  ultimately have g: "generatePopupContent scenario_luck (Cell 0 0) s0 =
     init_game\<lparr>objs := map (newCoin (Cell 0 0)) [0, 1, 2, 3],
       arrays := [[], [0, 1, 2, 3]], coins := [''0:0'' \<mapsto> 1], spawnedCaches := {''0:0''},
       rects := [(0, 0)], events := [''game-state-changed''],
       cacheStateMemento := [''0:0'' \<mapsto> (''0:0'', 0)]\<rparr>"
    by (simp add: generatePopupContent_def scenario_coinCount s0 init_game_def dispatchEvent_def
        toString_origin)
  define s2 where "s2 = collect 0 (generatePopupContent scenario_luck (Cell 0 0) s0)"
  have s2: "s2 = init_game\<lparr>objs := (newCoin (Cell 0 0) 0)\<lparr>collected := True\<rparr> #
                       map (newCoin (Cell 0 0)) [1, 2, 3],
       arrays := [[], [0, 1, 2, 3]], coins := [''0:0'' \<mapsto> 1],
       playerCoins := [0], playerPoints := 1, spawnedCaches := {''0:0''},
       rects := [(0, 0)],
       events := [''game-state-changed'', ''game-state-changed''],
       cacheStateMemento := [''0:0'' \<mapsto> (''0:0'', 0)]\<rparr>"
    by (simp add: s2_def g collect_def dispatchEvent_def newCoin_def init_game_def)
  define s3 where
    "s3 = s2\<lparr>playerPosition := LatLng (fst OAKES_CLASSROOM + TILE_DEGREES) (snd OAKES_CLASSROOM)\<rparr>"
  have m: "movement (playerPosition s2) ''north'' =
      Some (LatLng (fst OAKES_CLASSROOM + TILE_DEGREES) (snd OAKES_CLASSROOM))"
    by (simp add: s2 movement_def init_game_def)
  have sc: "spawnRelativeCache scenario_luck s3 =
         s3\<lparr>coins := (coins s3)(''0:0'' \<mapsto> 0), spawnedCaches := {''0:0''}\<rparr>"
    by (rule second_scan) (simp_all add: s3_def s2 init_game_def)
  have "reset_scenario = updatePlayerMovementHistory (spawnRelativeCache scenario_luck s3)"
    by (simp add: reset_scenario_def s0_def [symmetric] s2_def [symmetric] movePlayer_def m s3_def)
  then show ?thesis
    by (simp add: sc updatePlayerMovementHistory_def) (simp add: s3_def s2 init_game_def)
qed

text \<open>
  What a confirmed reset does to the player and to the snapshots, whatever the state:
  the inventory and the movement history are emptied, the score is zero, the position is
  the classroom, and no snapshot and no generated mark is left.
\<close>

lemma reset_clears_player:
  "map_option toLowerCase answer = Some ''yes'' \<Longrightarrow>
   playerCoins (resetGameState numStr answer s) = [] \<and>
   playerPoints (resetGameState numStr answer s) = 0 \<and>
   playerPosition (resetGameState numStr answer s) =
     LatLng (fst OAKES_CLASSROOM) (snd OAKES_CLASSROOM) \<and>
   playerMovementHistory (resetGameState numStr answer s) = [] \<and>
   cacheStateMemento (resetGameState numStr answer s) = Map.empty \<and>
   spawnedCaches (resetGameState numStr answer s) = {}"
  by (simp add: resetGameState_def Let_def resetPlayer_def)

text \<open>
  C9. In \<open>reset_scenario\<close> the player holds coin 0, created at cell (0, 0), and the token
  list of that cell is the restored, empty one. The confirmed reset clears the flag of the
  coin, empties the inventory and the movement history and puts the player back at the
  classroom, but it pushes the coin on a list under the key made of the coin's latitude and
  longitude; the token list of cell (0, 0) stays empty, so the coin is not back in the
  cache of its origin cell.
\<close>

theorem reset_puts_coin_under_latlng_key:
  "playerCoins reset_scenario = [0] \<and>
   latitude (objs reset_scenario ! 0) = fst (toLatLng (Cell 0 0)) \<and>
   longitude (objs reset_scenario ! 0) = snd (toLatLng (Cell 0 0)) \<and>
   getCoins (Cell 0 0) reset_scenario = [] \<and>
   getCoins (Cell 0 0) (resetGameState scenario_numStr (Some ''Yes'') reset_scenario) = [] \<and>
   coins (resetGameState scenario_numStr (Some ''Yes'') reset_scenario)
     ''36.98949379578401:-122.06277128548504'' = Some 2 \<and>
   arrays (resetGameState scenario_numStr (Some ''Yes'') reset_scenario) ! 2 = [0] \<and>
   \<not> collected (objs (resetGameState scenario_numStr (Some ''Yes'') reset_scenario) ! 0) \<and>
   playerCoins (resetGameState scenario_numStr (Some ''Yes'') reset_scenario) = [] \<and>
   playerPoints (resetGameState scenario_numStr (Some ''Yes'') reset_scenario) = 0 \<and>
   playerPosition (resetGameState scenario_numStr (Some ''Yes'') reset_scenario) =
     playerPosition init_game \<and>
   playerMovementHistory (resetGameState scenario_numStr (Some ''Yes'') reset_scenario) = []"
  by (simp add: reset_scenario_eq resetGameState_def Let_def resetPlayer_def returnCoin_def
      pushCoin_def toLowerCase_def scenario_numStr_def newCoin_def toLatLng_def
      OAKES_CLASSROOM_def getCoins_def toString_origin init_game_def)

subsection \<open>C8: the registry hands out one cell per pair of indices\<close>

lemma board_le_refl: "board_le b b"
  by (simp add: board_le_def)

lemma board_le_trans: "board_le b b' \<Longrightarrow> board_le b' b'' \<Longrightarrow> board_le b b''"
  by (auto simp: board_le_def)

lemma canonical_of_new:
  assumes "board_wf b"
  shows "board_wf (snd (getCanonicalCell (fst (newConcreteCell ci cj b)) (snd (newConcreteCell ci cj b))))"
    and "board_le b (snd (getCanonicalCell (fst (newConcreteCell ci cj b)) (snd (newConcreteCell ci cj b))))"
    and "knownCells (snd (getCanonicalCell (fst (newConcreteCell ci cj b)) (snd (newConcreteCell ci cj b))))
           (toString (Cell ci cj)) =
         Some (fst (getCanonicalCell (fst (newConcreteCell ci cj b)) (snd (newConcreteCell ci cj b))))"
    and "fst (getCanonicalCell (fst (newConcreteCell ci cj b)) (snd (newConcreteCell ci cj b))) =
         (case knownCells b (toString (Cell ci cj)) of None \<Rightarrow> length (cellObjs b) | Some a \<Rightarrow> a)"
  using assms
  by (auto simp: board_wf_def board_le_def getCanonicalCell_def newConcreteCell_def Let_def
      nth_append less_Suc_eq split: option.splits)

lemma getCellForPoint_props:
  assumes "board_wf b"
  shows "board_wf (snd (getCellForPoint p b))"
    and "board_le b (snd (getCellForPoint p b))"
    and "fst (getCellForPoint p b) =
         (case knownCells b (toString (Cell (fst (pointIndices b p)) (snd (pointIndices b p)))) of
            None \<Rightarrow> length (cellObjs b) | Some a \<Rightarrow> a)"
    and "knownCells (snd (getCellForPoint p b))
           (toString (Cell (fst (pointIndices b p)) (snd (pointIndices b p)))) =
         Some (fst (getCellForPoint p b))"
  using canonical_of_new [OF assms, of "fst (pointIndices b p)" "snd (pointIndices b p)"]
  by (simp_all add: getCellForPoint_def Let_def)

lemma nearAll_props:
  "board_wf (snd rb) \<Longrightarrow>
   board_wf (snd (nearAll oc ds rb)) \<and> board_le (snd rb) (snd (nearAll oc ds rb))"
proof (induction ds arbitrary: rb)
  case Nil
  then show ?case by (simp add: board_le_refl)
next
  case (Cons d ds)
  let ?b = "snd rb"
  let ?cb = "newConcreteCell (cell_i oc + fst d) (cell_j oc + snd d) ?b"
  let ?ab = "getCanonicalCell (fst ?cb) (snd ?cb)"
  let ?rb = "(fst rb @ [fst ?ab], snd ?ab)"
  have w: "board_wf (snd ?rb)" and l: "board_le ?b (snd ?rb)"
    using canonical_of_new(1,2) [OF Cons.prems] by simp_all
  from Cons.IH [OF w] l show ?case
    by (auto simp: Let_def intro: board_le_trans)
qed

lemma getCellsNearPoint_props:
  assumes "board_wf b"
  shows "board_wf (snd (getCellsNearPoint p b))" and "board_le b (snd (getCellsNearPoint p b))"
proof -
  let ?ob = "getCellForPoint p b"
  have w: "board_wf (snd ([], snd ?ob))" using getCellForPoint_props(1) [OF assms] by simp
  from nearAll_props [OF w] getCellForPoint_props(2) [OF assms, of p]
  show "board_wf (snd (getCellsNearPoint p b))" and "board_le b (snd (getCellsNearPoint p b))"
    by (auto simp: getCellsNearPoint_def Let_def intro: board_le_trans)
qed

lemma board_step_props:
  "board_wf b \<Longrightarrow> board_wf (board_step b op) \<and> board_le b (board_step b op)"
  by (cases op) (simp_all add: getCellForPoint_props getCellsNearPoint_props)

lemma board_steps_props:
  "board_wf b \<Longrightarrow> board_wf (foldl board_step b ops) \<and> board_le b (foldl board_step b ops)"
proof (induction ops arbitrary: b)
  case Nil
  then show ?case by (simp add: board_le_refl)
next
  case (Cons op ops)
  from board_step_props [OF Cons.prems, of op] Cons.IH [of "board_step b op"]
  show ?case by (auto intro: board_le_trans)
qed

lemma board_reachable_wf: "board_reachable b \<Longrightarrow> board_wf b"
  by (induction rule: board_reachable.induct)
     (simp_all add: board_wf_def newBoard_def board_step_props [unfolded board_wf_def])

text \<open>
  C8. On a board reached by lookups: a lookup of a point \<open>q\<close> made after a lookup of a point
  \<open>p\<close>, with any lookups in between, returns the very cell object the first lookup
  returned whenever both points have the same indices (the same point, or two points of
  one tile); that object has these indices; and \<^verbatim>\<open>knownCells\<close> never holds two entries
  for cells with equal indices.
\<close>

theorem registry_canonical:
  assumes "board_reachable b"
  shows "(pointIndices b p = pointIndices b q \<longrightarrow>
           fst (getCellForPoint q (foldl board_step (snd (getCellForPoint p b)) ops)) =
           fst (getCellForPoint p b)) \<and>
         cellObjs (snd (getCellForPoint p b)) ! fst (getCellForPoint p b) =
           Cell (fst (pointIndices b p)) (snd (pointIndices b p)) \<and>
         (knownCells b k1 = Some a1 \<and> knownCells b k2 = Some a2 \<and>
            cellObjs b ! a1 = cellObjs b ! a2 \<longrightarrow> a1 = a2)"
proof (intro conjI impI)
  have w: "board_wf b" using assms by (rule board_reachable_wf)
  let ?b1 = "snd (getCellForPoint p b)"
  let ?b2 = "foldl board_step ?b1 ops"
  let ?k = "toString (Cell (fst (pointIndices b p)) (snd (pointIndices b p)))"
  have w1: "board_wf ?b1" and k1: "knownCells ?b1 ?k = Some (fst (getCellForPoint p b))"
    using getCellForPoint_props [OF w] by simp_all
  from w1 k1 have "toString (cellObjs ?b1 ! fst (getCellForPoint p b)) = ?k"
    unfolding board_wf_def by blast
  then show "cellObjs ?b1 ! fst (getCellForPoint p b) =
      Cell (fst (pointIndices b p)) (snd (pointIndices b p))"
    by (rule toString_inj)
  {
    assume h: "knownCells b k1 = Some a1 \<and> knownCells b k2 = Some a2 \<and> cellObjs b ! a1 = cellObjs b ! a2"
    then have h1: "knownCells b k1 = Some a1" and h2: "knownCells b k2 = Some a2"
      and h3: "cellObjs b ! a1 = cellObjs b ! a2" by simp_all
    from w h1 have t1: "toString (cellObjs b ! a1) = k1" unfolding board_wf_def by blast
    from w h2 have t2: "toString (cellObjs b ! a2) = k2" unfolding board_wf_def by blast
    from t1 t2 h3 have "k1 = k2" by simp
    with h1 h2 show "a1 = a2" by simp
  }
  assume e: "pointIndices b p = pointIndices b q"
  have w2: "board_wf ?b2" and l2: "board_le ?b1 ?b2"
    using board_steps_props [OF w1] by simp_all
  have l1: "board_le b ?b1" using getCellForPoint_props(2) [OF w] .
  have "tileWidth ?b2 = tileWidth b" using l1 l2 by (simp add: board_le_def)
  then have "pointIndices ?b2 q = pointIndices b p" using e by (simp add: pointIndices_def)
  moreover have "knownCells ?b2 ?k = Some (fst (getCellForPoint p b))"
    using l2 k1 by (simp add: board_le_def)
  ultimately show "fst (getCellForPoint q ?b2) = fst (getCellForPoint p b)"
    using getCellForPoint_props(3) [OF w2, of q] by simp
qed

lemma scenario_board_eq:
  "scenario_board = \<lparr> tileWidth = 0.0001, tileVisibilityRadius = 1, cellObjs = [Cell 0 0],
                        knownCells = [''0:0'' \<mapsto> 0] \<rparr>"
  by (simp add: scenario_board_def getCellForPoint_def pointIndices_def newConcreteCell_def
      getCanonicalCell_def newBoard_def toString_origin)

theorem registry_canonical_witness:
  "board_reachable scenario_board \<and>
   pointIndices scenario_board (0.00015, 0.00025) = pointIndices scenario_board (0.00019, 0.00021) \<and>
   fst (getCellForPoint (0.00015, 0.00025) scenario_board) = 1 \<and>
   fst (getCellForPoint (0.00019, 0.00021)
         (foldl board_step (snd (getCellForPoint (0.00015, 0.00025) scenario_board))
            [ForPoint (0, 0)])) = 1 \<and>
   cellObjs (snd (getCellForPoint (0.00015, 0.00025) scenario_board)) ! 1 = Cell 1 2 \<and>
   knownCells scenario_board ''0:0'' = Some 0"
proof -
  define p :: "real \<times> real" where "p = (0.00015, 0.00025)"
  define q :: "real \<times> real" where "q = (0.00019, 0.00021)"
  have r: "board_reachable scenario_board"
    unfolding scenario_board_def by (intro b_step b_new) simp
  have i: "pointIndices scenario_board p = (1, 2)" "pointIndices scenario_board q = (1, 2)"
    by (simp_all add: pointIndices_def scenario_board_eq p_def q_def)
  have k: "toString (Cell 1 2) = ''1:2''"
    by (simp add: toString_def show_int_def show_nat.simps digit_def)
  have n: "knownCells scenario_board ''0:0'' = Some 0" "knownCells scenario_board ''1:2'' = None"
    "length (cellObjs scenario_board) = 1"
    by (simp_all add: scenario_board_eq)
  have f: "fst (getCellForPoint p scenario_board) = 1"
    using getCellForPoint_props(3) [OF board_reachable_wf [OF r], of p]
    by (simp add: i k n)
  from registry_canonical [OF r, of p q "[ForPoint (0, 0)]" "''0:0''" 0 "''0:0''" 0] r i f n
  have "board_reachable scenario_board \<and>
   pointIndices scenario_board p = pointIndices scenario_board q \<and>
   fst (getCellForPoint p scenario_board) = 1 \<and>
   fst (getCellForPoint q (foldl board_step (snd (getCellForPoint p scenario_board))
            [ForPoint (0, 0)])) = 1 \<and>
   cellObjs (snd (getCellForPoint p scenario_board)) ! 1 = Cell 1 2 \<and>
   knownCells scenario_board ''0:0'' = Some 0"
    by simp
  then show ?thesis unfolding p_def q_def .
qed

end
